theory Spec2Isabelle
  imports Main
begin

section \<open>TrustSync backend (src/index.js): data model\<close>

text \<open>
  The server keeps five global stores and serves each request to completion before the
  next one starts (one JavaScript thread).  The model passes the stores around as one
  record \<open>state\<close>; each route handler is a function from the state and the request to the
  new state and the response.

  Conventions of the embedding:
  \<^item> A JSON value is a \<open>jval\<close>; a JavaScript object used as a bag of flags (a context) is a
    map from keys to values, a missing key reads as \<open>undefined\<close> (\<open>None\<close>), and the object
    spread \<open>{...a, ...b}\<close> is \<open>a ++ b\<close>: the right operand wins on every key it has.
  \<^item> \<open>now()\<close> returns an ISO-8601 string, which is never empty and so always truthy.  The
    model keeps the clock reading (milliseconds) instead of the string; a timestamp field
    is \<open>None\<close> for \<open>null\<close> and \<open>Some t\<close> for the string of instant \<open>t\<close>.  A handler runs at
    one clock reading.
  \<^item> Telemetry records are JavaScript objects: \<open>TELEMETRY[id] = {...}\<close> allocates a new
    object and makes the key point to it.  The model keeps the objects in \<open>HEAP\<close> (the
    address of an object is its index) and \<open>TELEMETRY\<close> maps an event id to an address.
  \<^item> A pending \<open>setTimeout\<close> is an entry of \<open>TIMERS\<close>: its due time and its closure (the
    captured \<open>event_id\<close> and \<open>ctx\<close>).
  \<^item> The stores are plain JavaScript objects, so a read \<open>store[k]\<close> of a key the store
    does not have continues up the prototype chain.  A store is a map of its own keys,
    and what a read finds beyond them is written out where a handler depends on it
    (\<open>inherited\<close>, \<open>pushUserEvent\<close>, \<open>context_of\<close>, \<open>store_context\<close>, \<open>ack\<close>).  The key
    \<open>__proto__\<close> of \<open>TELEMETRY\<close> and of \<open>USER_DB\<close> is the slot of the prototype: an
    assignment to it replaces the prototype and a read of it returns the prototype (no
    record and no registry entry has a property of that name to come between), so their
    maps have an entry for it like for any key.
  \<^item> A request field that is a string or absent is a \<open>string option\<close>.
  \<^item> \<open>console.log\<close> output is not modelled; a response carries the fields of the JSON
    answer, the \<open>telemetry\<close> field being the record as it is when the answer is written.
\<close>

text \<open>
  Of a number only its being zero or not is ever read, so integers stand for numbers; of
  an array only its being an object (truthy) is, so \<open>JArr\<close> stands for every array.  An
  object carries its own properties.
\<close>

datatype jval =
  JNull | JBool bool | JNum int | JStr string | JArr | JObj "string \<Rightarrow> jval option"

text \<open>JavaScript truthiness of a property read; \<open>None\<close> is \<open>undefined\<close>.\<close>

fun truthy :: "jval option \<Rightarrow> bool" where
  "truthy None = False"
| "truthy (Some JNull) = False"
| "truthy (Some (JBool b)) = b"
| "truthy (Some (JNum n)) = (n \<noteq> 0)"
| "truthy (Some (JStr s)) = (s \<noteq> [])"
| "truthy (Some JArr) = True"
| "truthy (Some (JObj m)) = True"

type_synonym jobject = "string \<rightharpoonup> jval"

text \<open>Spreading \<open>undefined\<close> contributes no key.\<close>

definition spread :: "jobject option \<Rightarrow> jobject" where
  "spread c = (case c of None \<Rightarrow> Map.empty | Some m \<Rightarrow> m)"

text \<open>\<open>v || d\<close> on a string-or-undefined value: the empty string is falsy too.\<close>

definition or_else :: "string option \<Rightarrow> string \<Rightarrow> string" where
  "or_else v d = (case v of None \<Rightarrow> d | Some x \<Rightarrow> if x = [] then d else x)"

datatype channel = IN_APP | PUSH | WHATSAPP | SMS | SMS_BINDING | ANALYZING

fun channel_name :: "channel \<Rightarrow> string" where
  "channel_name IN_APP = ''IN_APP''"
| "channel_name PUSH = ''PUSH''"
| "channel_name WHATSAPP = ''WHATSAPP''"
| "channel_name SMS = ''SMS''"
| "channel_name SMS_BINDING = ''SMS_BINDING''"
| "channel_name ANALYZING = ''ANALYZING''"

record telemetry =
  event_id :: string
  user_id :: string
  event_type :: string
  chosen_channel :: "channel option"
  sent_ts :: "nat option"
  ack_ts :: "nat option"
  fallback_triggered :: bool
  fallback_channel :: "channel option"
  logs :: "(nat \<times> string) list"

record user_entry =
  registered_device_id :: string
  is_registered :: bool

text \<open>The two timer closures of \<open>/send-notification\<close>, with what they capture.\<close>

datatype callback = PushFallback string jobject | WhatsappFallback string

record timer =
  t_due :: nat
  t_callback :: callback

fun callback_event :: "callback \<Rightarrow> string" where
  "callback_event (PushFallback e ctx) = e"
| "callback_event (WhatsappFallback e) = e"

text \<open>
  The last two fields are not stores of the module.  \<open>DEVICE_CONTEXT_PROTO\<close> is the
  prototype of \<open>DEVICE_CONTEXT_STORE\<close> when an assignment to its key \<open>__proto__\<close> has
  replaced it (\<open>None\<close>: it is \<open>Object.prototype\<close>); it is kept apart from the map because
  a context holds the keys a caller sent, \<open>__proto__\<close> among them, see \<open>store_context\<close>.
  \<open>proto_ack_ts\<close> records that \<open>Object.prototype.ack_ts\<close> has been assigned (by \<open>/ack\<close> or
  \<open>/complete-binding\<close> on the event id \<open>__proto__\<close>, see \<open>ack\<close>), after which every object
  inherits a truthy \<open>ack_ts\<close>.
\<close>

record state =
  clock :: nat
  HEAP :: "telemetry list"
  TELEMETRY :: "string \<rightharpoonup> nat"
  USER_EVENTS :: "string \<rightharpoonup> string list"
  EVENT_ORDER :: "string list"
  USER_DB :: "string \<rightharpoonup> user_entry"
  DEVICE_CONTEXT_STORE :: "string \<rightharpoonup> jobject"
  TIMERS :: "timer list"
  DEVICE_CONTEXT_PROTO :: "jobject option"
  proto_ack_ts :: bool

definition WHATSAPP_TIMEOUT_MS :: nat where
  "WHATSAPP_TIMEOUT_MS = 20000"

text \<open>The stores as the module initialises them (lines 24--45), at clock reading \<open>t0\<close>.\<close>

definition demo_context :: jobject where
  "demo_context =
     [''device_status'' \<mapsto> JStr ''KNOWN'',
      ''has_app'' \<mapsto> JBool True,
      ''is_active'' \<mapsto> JBool False,
      ''device_online'' \<mapsto> JBool True,
      ''whatsapp_opt_in'' \<mapsto> JBool True]"

definition init_state :: "nat \<Rightarrow> state" where
  "init_state t0 =
     \<lparr>clock = t0, HEAP = [], TELEMETRY = Map.empty, USER_EVENTS = Map.empty,
      EVENT_ORDER = [],
      USER_DB = [''demo_user'' \<mapsto> \<lparr>registered_device_id = ''device_888'', is_registered = True\<rparr>],
      DEVICE_CONTEXT_STORE = [''demo_user'' \<mapsto> demo_context],
      TIMERS = [], DEVICE_CONTEXT_PROTO = None, proto_ack_ts = False\<rparr>"

section \<open>Store primitives\<close>

definition now :: "state \<Rightarrow> nat" where
  "now s = clock s"

text \<open>
  The property names of \<open>Object.prototype\<close>.  A plain object that has no such key of its
  own yields a function for it (the prototype itself for \<open>__proto__\<close>): a truthy value
  that is neither an array nor a record.
\<close>

definition object_prototype_names :: "string list" where
  "object_prototype_names =
     [''constructor'', ''__defineGetter__'', ''__defineSetter__'', ''hasOwnProperty'',
      ''__lookupGetter__'', ''__lookupSetter__'', ''isPrototypeOf'', ''propertyIsEnumerable'',
      ''toString'', ''valueOf'', ''__proto__'', ''toLocaleString'']"

text \<open>\<open>Object.prototype[k]\<close> is defined; the values it can have here are all truthy.\<close>

definition inherited :: "state \<Rightarrow> string \<Rightarrow> bool" where
  "inherited s k \<longleftrightarrow> k \<in> set object_prototype_names \<or> (proto_ack_ts s \<and> k = ''ack_ts'')"

text \<open>
  What \<open>DEVICE_CONTEXT_STORE[u] || {}\<close> holds, as far as it is read (its
  \<open>device_status\<close>) or spread.  A user without a context of their own gets what the chain
  yields under their name: the property \<open>u\<close> of the prototype \<open>p\<close>, if the prototype has been
  replaced and has that property; failing that, for \<open>__proto__\<close>, the prototype itself
  (the accessor of \<open>Object.prototype\<close>).  Only an object found there has properties to
  read or spread that a handler looks at: a string or an array spreads into index keys,
  which no handler reads, and a function, a number or a boolean spreads into nothing.
\<close>

definition read_context ::
  "(string \<rightharpoonup> jobject) \<Rightarrow> jobject option \<Rightarrow> string \<Rightarrow> jobject" where
  "read_context store proto u =
     (case store u of
        Some c \<Rightarrow> c
      | None \<Rightarrow>
          (case proto of
             None \<Rightarrow> Map.empty
           | Some p \<Rightarrow>
               (case p u of
                  Some (JObj m) \<Rightarrow> m
                | Some v \<Rightarrow> Map.empty
                | None \<Rightarrow> if u = ''__proto__'' then p else Map.empty)))"

definition context_of :: "state \<Rightarrow> string \<Rightarrow> jobject" where
  "context_of s u = read_context (DEVICE_CONTEXT_STORE s) (DEVICE_CONTEXT_PROTO s) u"

text \<open>
  \<open>DEVICE_CONTEXT_STORE[k] = c\<close>.  For \<open>__proto__\<close> the assignment reaches the setter of
  \<open>Object.prototype\<close>, which replaces the prototype, unless a data property of that name
  is found first: one of the store's own, or one of the replaced prototype's (a context
  can have it, from the caller's JSON); then the store gets or keeps a property
  \<open>__proto__\<close> of its own.
\<close>

definition store_context :: "state \<Rightarrow> string \<Rightarrow> jobject \<Rightarrow> state" where
  "store_context s k c =
     (if k = ''__proto__'' \<and> DEVICE_CONTEXT_STORE s ''__proto__'' = None
      then
        (case DEVICE_CONTEXT_PROTO s of
           None \<Rightarrow> s\<lparr>DEVICE_CONTEXT_PROTO := Some c\<rparr>
         | Some p \<Rightarrow>
             if p ''__proto__'' = None then s\<lparr>DEVICE_CONTEXT_PROTO := Some c\<rparr>
             else s\<lparr>DEVICE_CONTEXT_STORE := (DEVICE_CONTEXT_STORE s)(k \<mapsto> c)\<rparr>)
      else s\<lparr>DEVICE_CONTEXT_STORE := (DEVICE_CONTEXT_STORE s)(k \<mapsto> c)\<rparr>)"

datatype exn = TypeError

text \<open>\<open>TELEMETRY[e]\<close>: the record object the key points to, if any.\<close>

definition lookup :: "state \<Rightarrow> string \<Rightarrow> telemetry option" where
  "lookup s e = map_option (\<lambda>a. HEAP s ! a) (TELEMETRY s e)"

text \<open>\<open>TELEMETRY[e] = r\<close> with \<open>r\<close> a new object literal.\<close>

definition create :: "state \<Rightarrow> string \<Rightarrow> telemetry \<Rightarrow> state" where
  "create s e r = s\<lparr>HEAP := HEAP s @ [r], TELEMETRY := (TELEMETRY s)(e \<mapsto> length (HEAP s))\<rparr>"

text \<open>A field assignment \<open>TELEMETRY[e].f = v\<close>, in a place where the record exists.\<close>

definition upd :: "state \<Rightarrow> string \<Rightarrow> (telemetry \<Rightarrow> telemetry) \<Rightarrow> state" where
  "upd s e f =
     (case TELEMETRY s e of
        None \<Rightarrow> s
      | Some a \<Rightarrow> s\<lparr>HEAP := (HEAP s)[a := f (HEAP s ! a)]\<rparr>)"

text \<open>
  \<open>pushUserEvent\<close> (lines 49--52).  When \<open>USER_EVENTS\<close> has no key \<open>userId\<close> but the chain
  has one, \<open>USER_EVENTS[userId]\<close> is truthy, no list is stored, and \<open>.push\<close> is not a
  function of the value found: the call throws.
\<close>

definition pushUserEvent :: "state \<Rightarrow> string \<Rightarrow> string \<Rightarrow> exn + state" where
  "pushUserEvent s userId eventId =
     (case USER_EVENTS s userId of
        Some xs \<Rightarrow> Inr (s\<lparr>USER_EVENTS := (USER_EVENTS s)(userId \<mapsto> xs @ [eventId])\<rparr>)
      | None \<Rightarrow>
          if inherited s userId then Inl TypeError
          else Inr (s\<lparr>USER_EVENTS := (USER_EVENTS s)(userId \<mapsto> [] @ [eventId])\<rparr>))"

text \<open>\<open>recordLog\<close> (lines 54--58), as it acts on an event id that is stored or unknown.\<close>

definition recordLog :: "state \<Rightarrow> string \<Rightarrow> string \<Rightarrow> state" where
  "recordLog s e msg =
     (case TELEMETRY s e of
        None \<Rightarrow> s
      | Some a \<Rightarrow> upd s e (\<lambda>r. r\<lparr>logs := logs r @ [(now s, msg)]\<rparr>))"

text \<open>\<open>if (!EVENT_ORDER.includes(event_id)) EVENT_ORDER.unshift(event_id)\<close>\<close>

definition noteOrder :: "state \<Rightarrow> string \<Rightarrow> state" where
  "noteOrder s e =
     (if e \<in> set (EVENT_ORDER s) then s else s\<lparr>EVENT_ORDER := e # EVENT_ORDER s\<rparr>)"

section \<open>Route handlers\<close>

subsection \<open>POST /update-context\<close>

definition update_context :: "state \<Rightarrow> string option \<Rightarrow> jobject option \<Rightarrow> state" where
  "update_context s uid ctx =
     (let targetUser = or_else uid ''demo_user''
      in store_context s targetUser (context_of s targetUser ++ spread ctx))"

subsection \<open>POST /login\<close>

datatype login_status = TRUSTED | BINDING_REQUIRED

record login_result =
  status :: login_status
  l_event_id :: string
  l_channel :: channel
  target_number :: "string option"
  message :: string

text \<open>
  \<open>uuid\<close> is the value \<open>uuidv4()\<close> returns.  The three non-ASCII signs in the log
  messages are written as their UTF-8 bytes.
\<close>

definition check_mark :: string where
  "check_mark = [CHR 0xE2, CHR 0x9C, CHR 0x85]"

definition warning_sign :: string where
  "warning_sign = [CHR 0xE2, CHR 0x9A, CHR 0xA0, CHR 0xEF, CHR 0xB8, CHR 0x8F]"

definition envelope_sign :: string where
  "envelope_sign = [CHR 0xF0, CHR 0x9F, CHR 0x93, CHR 0xA9]"

definition recycle_sign :: string where
  "recycle_sign = [CHR 0xE2, CHR 0x99, CHR 0xBB, CHR 0xEF, CHR 0xB8, CHR 0x8F]"

datatype error = InternalServerError

text \<open>
  The handler has no \<open>try\<close>: when \<open>pushUserEvent\<close> throws, the framework answers 500 and
  the statements after line 100 do not run.
\<close>

definition login ::
  "state \<Rightarrow> string \<Rightarrow> string \<Rightarrow> string \<Rightarrow> state \<times> (error + login_result)" where
  "login s uid device_id uuid =
     (let simContext = context_of s uid;
          s1 = create s uuid
                 \<lparr>event_id = uuid, user_id = uid, event_type = ''LOGIN_ATTEMPT'',
                  chosen_channel = Some ANALYZING, sent_ts = Some (now s), ack_ts = None,
                  fallback_triggered = False, fallback_channel = None, logs = []\<rparr>;
          s2 = noteOrder s1 uuid
      in case pushUserEvent s2 uid uuid of
           Inl x \<Rightarrow> (s2, Inl InternalServerError)
         | Inr s3 \<Rightarrow>
             (let s4 = recordLog s3 uuid (''Login attempt from Device ID: '' @ device_id)
              in if simContext ''device_status'' = Some (JStr ''KNOWN'') then
                   (let s5 = upd s4 uuid (\<lambda>r. r\<lparr>event_type := ''TRUSTED_LOGIN''\<rparr>);
                        s6 = upd s5 uuid (\<lambda>r. r\<lparr>chosen_channel := Some IN_APP\<rparr>);
                        s7 = recordLog s6 uuid (check_mark @ '' Device ID matched registry.'');
                        s8 = recordLog s7 uuid ''Trust Score: HIGH. Sending In-App Flash.''
                    in (s8, Inr \<lparr>status = TRUSTED, l_event_id = uuid, l_channel = IN_APP,
                                 target_number = None, message = ''Device Verified.''\<rparr>))
                 else
                   (let s5 = upd s4 uuid (\<lambda>r. r\<lparr>event_type := ''NEW_DEVICE_LOGIN''\<rparr>);
                        s6 = upd s5 uuid (\<lambda>r. r\<lparr>chosen_channel := Some SMS_BINDING\<rparr>);
                        s7 = recordLog s6 uuid
                               (warning_sign @ '' Device ID mismatch (Unknown Device).'');
                        s8 = recordLog s7 uuid
                               ''Security Policy: Force SIM Binding (Upstream SMS).''
                    in (s8, Inr \<lparr>status = BINDING_REQUIRED, l_event_id = uuid,
                                 l_channel = SMS_BINDING,
                                 target_number = Some ''+919999999999'',
                                 message = ''Binding Required.''\<rparr>))))"

subsection \<open>POST /complete-binding\<close>

text \<open>
  \<open>USER_DB[user_id]?.registered_device_id\<close> is undefined for every value the chain can
  yield under a key \<open>USER_DB\<close> does not have, so \<open>oldID\<close> is read from the map.  The test of
  \<open>TELEMETRY[event_id]\<close> is as in \<open>/ack\<close> below.
\<close>

definition complete_binding :: "state \<Rightarrow> string \<Rightarrow> string \<Rightarrow> string option \<Rightarrow> state" where
  "complete_binding s uid device_id eid =
     (let oldID = or_else (map_option registered_device_id (USER_DB s uid)) ''none'';
          s1 = s\<lparr>USER_DB := (USER_DB s)
                  (uid \<mapsto> \<lparr>registered_device_id = device_id, is_registered = True\<rparr>)\<rparr>
      in case eid of
           None \<Rightarrow> s1
         | Some e \<Rightarrow>
             if e \<noteq> [] \<and> TELEMETRY s1 e \<noteq> None then
               (let s2 = upd s1 e (\<lambda>r. r\<lparr>ack_ts := Some (now s1)\<rparr>);
                    s3 = recordLog s2 e (envelope_sign @ '' Encrypted SMS received at Bank Server.'')
                in recordLog s3 e
                     (recycle_sign @ '' Registry Updated: Replaced '' @ oldID @ '' with ''
                        @ device_id @ ''.''))
             else if e = ''__proto__'' then s1\<lparr>proto_ack_ts := True\<rparr>
             else s1)"

subsection \<open>POST /send-notification\<close>

record notification_body =
  b_event_id :: "string option"
  b_user_id :: "string option"
  b_event_type :: "string option"
  b_user_context :: "jobject option"

record dispatch_result =
  r_event_id :: string
  r_chosen_channel :: channel
  r_telemetry :: "telemetry option"

text \<open>
  The handler's \<open>catch\<close> answers 500 with \<open>Internal Server Error\<close>; it is the only error
  the route can answer with.  The one statement of the \<open>try\<close> block that can throw is the
  call of \<open>pushUserEvent\<close> (line 179): the record is stored by then, with no channel, no
  \<open>sent_ts\<close> and no log line yet, and no timer is armed.
\<close>

text \<open>\<open>ctx = { ...body.user_context, ...simulatedContext }\<close> (lines 167--168).\<close>

definition dispatch_ctx :: "state \<Rightarrow> notification_body \<Rightarrow> jobject" where
  "dispatch_ctx s body =
     (let uid = or_else (b_user_id body) ''demo_user'';
          simulatedContext = context_of s uid
      in spread (b_user_context body) ++ simulatedContext)"

text \<open>The record literal of lines 172--176.\<close>

definition new_record :: "string \<Rightarrow> string \<Rightarrow> string \<Rightarrow> telemetry" where
  "new_record e uid etype =
     \<lparr>event_id = e, user_id = uid, event_type = etype,
      chosen_channel = None, sent_ts = None, ack_ts = None,
      fallback_triggered = False, fallback_channel = None, logs = []\<rparr>"

text \<open>\<open>setTimeout(cb, config.WHATSAPP_TIMEOUT_MS)\<close>\<close>

definition setTimeout :: "state \<Rightarrow> callback \<Rightarrow> state" where
  "setTimeout s cb =
     s\<lparr>TIMERS := TIMERS s @ [\<lparr>t_due = now s + WHATSAPP_TIMEOUT_MS, t_callback = cb\<rparr>]\<rparr>"

text \<open>The three lines every branch starts with: channel, \<open>sent_ts\<close>, the routing log.\<close>

definition route :: "state \<Rightarrow> string \<Rightarrow> channel \<Rightarrow> string \<Rightarrow> state" where
  "route s e ch msg =
     (let s1 = upd s e (\<lambda>r. r\<lparr>chosen_channel := Some ch\<rparr>);
          s2 = upd s1 e (\<lambda>r. r\<lparr>sent_ts := Some (now s1)\<rparr>)
      in recordLog s2 e msg)"

definition respond :: "state \<Rightarrow> string \<Rightarrow> channel \<Rightarrow> state \<times> (error + dispatch_result)" where
  "respond s e ch =
     (s, Inr \<lparr>r_event_id = e, r_chosen_channel = ch, r_telemetry = lookup s e\<rparr>)"

definition send_notification ::
  "state \<Rightarrow> notification_body \<Rightarrow> string \<Rightarrow> state \<times> (error + dispatch_result)" where
  "send_notification s body uuid =
     (let e = or_else (b_event_id body) uuid;
          uid = or_else (b_user_id body) ''demo_user'';
          etype = or_else (b_event_type body) ''LOGIN_OTP'';
          ctx = dispatch_ctx s body;
          s1 = create s e (new_record e uid etype);
          s2 = noteOrder s1 e
      in case pushUserEvent s2 uid e of
           Inl x \<Rightarrow> (s2, Inl InternalServerError)
         | Inr s3 \<Rightarrow>
             if truthy (ctx ''has_app'') \<and> truthy (ctx ''is_active'') \<and>
                truthy (ctx ''device_online'')
             then respond (route s3 e IN_APP ''Route: IN_APP (User active in app)'') e IN_APP
             else if truthy (ctx ''has_app'') \<and> truthy (ctx ''device_online'')
             then respond
                    (setTimeout (route s3 e PUSH ''Route: PUSH (Background notification)'')
                       (PushFallback e ctx)) e PUSH
             else if truthy (ctx ''whatsapp_opt_in'') \<and> truthy (ctx ''device_online'')
             then respond
                    (setTimeout (route s3 e WHATSAPP ''Route: WHATSAPP (Opt-in Primary)'')
                       (WhatsappFallback e)) e WHATSAPP
             else respond (route s3 e SMS ''Route: SMS (Last Resort)'') e SMS)"

subsection \<open>The timer callbacks\<close>

fun run_callback :: "state \<Rightarrow> callback \<Rightarrow> state" where
  "run_callback s (PushFallback e ctx) =
     (case lookup s e of
        None \<Rightarrow> s
      | Some r \<Rightarrow>
          if ack_ts r \<noteq> None then s
          else
            (let fallback = (if truthy (ctx ''whatsapp_opt_in'') then WHATSAPP else SMS);
                 s1 = upd s e (\<lambda>r. r\<lparr>fallback_triggered := True\<rparr>);
                 s2 = upd s1 e (\<lambda>r. r\<lparr>fallback_channel := Some fallback\<rparr>)
             in recordLog s2 e (''No ACK -> Fallback to '' @ channel_name fallback)))"
| "run_callback s (WhatsappFallback e) =
     (case lookup s e of
        None \<Rightarrow> s
      | Some r \<Rightarrow>
          if ack_ts r \<noteq> None then s
          else
            (let s1 = upd s e (\<lambda>r. r\<lparr>fallback_triggered := True\<rparr>);
                 s2 = upd s1 e (\<lambda>r. r\<lparr>fallback_channel := Some SMS\<rparr>)
             in recordLog s2 e ''No ACK -> Fallback to SMS''))"

text \<open>The runtime takes pending timer \<open>i\<close> off its list and runs the callback.\<close>

definition fire :: "state \<Rightarrow> nat \<Rightarrow> state" where
  "fire s i =
     run_callback (s\<lparr>TIMERS := take i (TIMERS s) @ drop (Suc i) (TIMERS s)\<rparr>)
       (t_callback (TIMERS s ! i))"

subsection \<open>POST /ack\<close>

text \<open>
  When \<open>TELEMETRY\<close> has no key \<open>event_id\<close>, \<open>TELEMETRY[event_id]\<close> is undefined or a value
  found up the chain.  If it is truthy, \<open>ack_ts\<close> is assigned on that value and
  \<open>recordLog\<close> then throws (the value has no \<open>logs\<close>), so no record is touched and the
  request is answered 500.  The assignment has an effect that a later request can see
  only when the value is \<open>Object.prototype\<close> itself: that is \<open>TELEMETRY['__proto__']\<close>
  as long as no record is stored under \<open>__proto__\<close>.  The model gives the stores after the
  request; the answer (\<open>ok\<close> or 500) is not part of it.
\<close>

definition ack :: "state \<Rightarrow> string \<Rightarrow> string \<Rightarrow> state" where
  "ack s e ch =
     (if TELEMETRY s e \<noteq> None then
        recordLog (upd s e (\<lambda>r. r\<lparr>ack_ts := Some (now s)\<rparr>)) e (''ACK received via '' @ ch)
      else if e = ''__proto__'' then s\<lparr>proto_ack_ts := True\<rparr>
      else s)"

subsection \<open>GET /inbox/:userId\<close>

text \<open>
  \<open>USER_EVENTS[userId] || []\<close> is the value found up the chain when the store has no such
  key; that value has no \<open>.map\<close>, the handler throws and the framework answers 500.
\<close>

definition inbox :: "state \<Rightarrow> string \<Rightarrow> error + telemetry list" where
  "inbox s userId =
     (case USER_EVENTS s userId of
        Some eventIds \<Rightarrow> Inr (rev (List.map_filter (lookup s) eventIds))
      | None \<Rightarrow>
          if inherited s userId then Inl InternalServerError
          else Inr (rev (List.map_filter (lookup s) [])))"

subsection \<open>GET /events\<close>

text \<open>The answer's \<open>count\<close> is the length of the list.\<close>

definition events :: "state \<Rightarrow> telemetry list" where
  "events s = List.map_filter (lookup s) (take 50 (EVENT_ORDER s))"

section \<open>Runs of the server\<close>

text \<open>
  What can happen next: time passes, a request arrives and its handler runs, or the
  runtime runs the callback of a pending timer whose delay has elapsed.  A timer never
  fires early, so \<open>Fire i\<close> is not possible before the due time.
\<close>

datatype op =
    Tick nat
  | UpdateContext "string option" "jobject option"
  | Login string string string
  | CompleteBinding string string "string option"
  | SendNotification notification_body string
  | Ack string string
  | Fire nat

fun step :: "state \<Rightarrow> op \<Rightarrow> state option" where
  "step s (Tick d) = Some (s\<lparr>clock := clock s + d\<rparr>)"
| "step s (UpdateContext uid ctx) = Some (update_context s uid ctx)"
| "step s (Login uid device_id uuid) = Some (fst (login s uid device_id uuid))"
| "step s (CompleteBinding uid device_id eid) = Some (complete_binding s uid device_id eid)"
| "step s (SendNotification body uuid) = Some (fst (send_notification s body uuid))"
| "step s (Ack e ch) = Some (ack s e ch)"
| "step s (Fire i) =
     (if i < length (TIMERS s) \<and> t_due (TIMERS s ! i) \<le> clock s then Some (fire s i) else None)"

fun run :: "state \<Rightarrow> op list \<Rightarrow> state option" where
  "run s [] = Some s"
| "run s (x # xs) = (case step s x of None \<Rightarrow> None | Some s' \<Rightarrow> run s' xs)"

section \<open>Notions used in the statements\<close>

text \<open>
  \<open>pushUserEvent\<close> throws for the user: \<open>USER_EVENTS\<close> has no list for them and the chain
  yields a value under their name.  Otherwise the event id is appended to their list.
\<close>

definition push_throws :: "state \<Rightarrow> string \<Rightarrow> bool" where
  "push_throws s userId \<longleftrightarrow> USER_EVENTS s userId = None \<and> inherited s userId"

definition pushed :: "state \<Rightarrow> string \<Rightarrow> string \<Rightarrow> state" where
  "pushed s userId eventId =
     s\<lparr>USER_EVENTS := (USER_EVENTS s)
          (userId \<mapsto> (case USER_EVENTS s userId of None \<Rightarrow> [] | Some xs \<Rightarrow> xs) @ [eventId])\<rparr>"

text \<open>
  The channel cascade in the words of the specification (section 4.1), on the four flags
  of a context snapshot.
\<close>

definition spec_select :: "bool \<Rightarrow> bool \<Rightarrow> bool \<Rightarrow> bool \<Rightarrow> channel" where
  "spec_select has_app is_active device_online whatsapp_opt_in =
     (if has_app \<and> is_active \<and> device_online then IN_APP
      else if has_app \<and> device_online then PUSH
      else if whatsapp_opt_in \<and> device_online then WHATSAPP
      else SMS)"

definition select_on :: "jobject \<Rightarrow> channel" where
  "select_on c =
     spec_select (truthy (c ''has_app'')) (truthy (c ''is_active''))
       (truthy (c ''device_online'')) (truthy (c ''whatsapp_opt_in''))"

text \<open>
  One context laid over another: the value of \<open>stored\<close> on every key \<open>stored\<close> has, the
  value of \<open>caller\<close> on the other keys.
\<close>

definition overlay :: "jobject \<Rightarrow> jobject \<Rightarrow> jobject" where
  "overlay stored caller k = (case stored k of Some v \<Rightarrow> Some v | None \<Rightarrow> caller k)"

text \<open>The fallback selector of the specification (section 4.2), per timer closure.\<close>

fun spec_fallback :: "callback \<Rightarrow> channel" where
  "spec_fallback (PushFallback e ctx) = (if truthy (ctx ''whatsapp_opt_in'') then WHATSAPP else SMS)"
| "spec_fallback (WhatsappFallback e) = SMS"

text \<open>
  The timers a dispatch arms: one for PUSH and for WHATSAPP, none otherwise, and none
  when the request fails in \<open>pushUserEvent\<close>.
\<close>

definition armed :: "state \<Rightarrow> notification_body \<Rightarrow> string \<Rightarrow> timer list" where
  "armed s body uuid =
     (let e = or_else (b_event_id body) uuid; ctx = dispatch_ctx s body
      in if push_throws s (or_else (b_user_id body) ''demo_user'') then []
         else if select_on ctx = PUSH then
           [\<lparr>t_due = clock s + WHATSAPP_TIMEOUT_MS, t_callback = PushFallback e ctx\<rparr>]
         else if select_on ctx = WHATSAPP then
           [\<lparr>t_due = clock s + WHATSAPP_TIMEOUT_MS, t_callback = WhatsappFallback e\<rparr>]
         else [])"

text \<open>The routing line each branch of the handler logs.\<close>

fun route_line :: "channel \<Rightarrow> string" where
  "route_line IN_APP = ''Route: IN_APP (User active in app)''"
| "route_line PUSH = ''Route: PUSH (Background notification)''"
| "route_line WHATSAPP = ''Route: WHATSAPP (Opt-in Primary)''"
| "route_line SMS = ''Route: SMS (Last Resort)''"
| "route_line c = []"

text \<open>The number of timers pending against an event id.\<close>

definition pending :: "state \<Rightarrow> string \<Rightarrow> nat" where
  "pending s e = length (filter (\<lambda>t. callback_event (t_callback t) = e) (TIMERS s))"

text \<open>A dispatch under the event id \<open>e\<close>.\<close>

fun dispatches :: "op \<Rightarrow> string \<Rightarrow> bool" where
  "dispatches (SendNotification body uuid) e = (or_else (b_event_id body) uuid = e)"
| "dispatches x e = False"

text \<open>An operation that stores a new record under the event id \<open>e\<close>.\<close>

fun creates :: "op \<Rightarrow> string \<Rightarrow> bool" where
  "creates (Login uid device_id uuid) e = (uuid = e)"
| "creates (SendNotification body uuid) e = (or_else (b_event_id body) uuid = e)"
| "creates x e = False"

text \<open>A request of the demo: event \<open>e\<close> for \<open>demo_user\<close>, no context of the caller's.\<close>

definition demo_push :: "string \<Rightarrow> notification_body" where
  "demo_push e =
     \<lparr>b_event_id = Some e, b_user_id = Some ''demo_user'', b_event_type = None,
      b_user_context = None\<rparr>"

text \<open>
  What a client sees after the server has run \<open>ops\<close> from its initial stores (clock 0):
  the record stored under an event id, the number of timers pending against it, the
  event ids of a user's inbox.  The value is \<open>None\<close> when the run is not possible (or
  the inbox answers 500).
\<close>

definition observe :: "op list \<Rightarrow> string \<Rightarrow> telemetry option" where
  "observe ops e = Option.bind (run (init_state 0) ops) (\<lambda>s. lookup s e)"

definition observe_pending :: "op list \<Rightarrow> string \<Rightarrow> nat option" where
  "observe_pending ops e = map_option (\<lambda>s. pending s e) (run (init_state 0) ops)"

definition observe_inbox :: "op list \<Rightarrow> string \<Rightarrow> string list option" where
  "observe_inbox ops u =
     Option.bind (run (init_state 0) ops)
       (\<lambda>s. case inbox s u of Inl x \<Rightarrow> None | Inr rs \<Rightarrow> Some (map event_id rs))"

text \<open>
  Well-formed stores: every key of \<open>TELEMETRY\<close> points to an allocated object, two keys
  never share an object, and a pending timer was armed for a stored event.  The initial
  stores are well formed and every operation keeps them so (\<open>wf_init_state\<close>, \<open>run_wf\<close>).
\<close>

definition wf_stores :: "state \<Rightarrow> bool" where
  "wf_stores s \<longleftrightarrow>
     (\<forall>e a. TELEMETRY s e = Some a \<longrightarrow> a < length (HEAP s)) \<and>
     (\<forall>e e' a. TELEMETRY s e = Some a \<longrightarrow> TELEMETRY s e' = Some a \<longrightarrow> e = e') \<and>
     (\<forall>t \<in> set (TIMERS s). TELEMETRY s (callback_event (t_callback t)) \<noteq> None)"

text \<open>
  Nothing can have escalated the record of \<open>e\<close>, the object at \<open>a\<close>, before the instant
  \<open>D\<close>: it is not escalated, and no timer against \<open>e\<close> is due before \<open>D\<close>.
\<close>

definition quiet :: "state \<Rightarrow> string \<Rightarrow> nat \<Rightarrow> nat \<Rightarrow> bool" where
  "quiet s e a D \<longleftrightarrow>
     TELEMETRY s e = Some a \<and> \<not> fallback_triggered (HEAP s ! a) \<and>
     (\<forall>t \<in> set (TIMERS s). callback_event (t_callback t) = e \<longrightarrow> D \<le> t_due t)"

text \<open>
  The object at address \<open>a\<close> is acknowledged in \<open>s'\<close> and has the fallback fields it had
  in \<open>s\<close>.
\<close>

definition kept :: "nat \<Rightarrow> state \<Rightarrow> state \<Rightarrow> bool" where
  "kept a s s' \<longleftrightarrow>
     a < length (HEAP s') \<and> ack_ts (HEAP s' ! a) \<noteq> None \<and>
     fallback_triggered (HEAP s' ! a) = fallback_triggered (HEAP s ! a) \<and>
     fallback_channel (HEAP s' ! a) = fallback_channel (HEAP s ! a)"

section \<open>How the primitives act on the stores\<close>

lemma upd_fields [simp]:
  "TELEMETRY (upd s e f) = TELEMETRY s"
  "TIMERS (upd s e f) = TIMERS s"
  "clock (upd s e f) = clock s"
  "USER_EVENTS (upd s e f) = USER_EVENTS s"
  "EVENT_ORDER (upd s e f) = EVENT_ORDER s"
  "USER_DB (upd s e f) = USER_DB s"
  "DEVICE_CONTEXT_STORE (upd s e f) = DEVICE_CONTEXT_STORE s"
  "DEVICE_CONTEXT_PROTO (upd s e f) = DEVICE_CONTEXT_PROTO s"
  "proto_ack_ts (upd s e f) = proto_ack_ts s"
  "length (HEAP (upd s e f)) = length (HEAP s)"
  by (simp_all add: upd_def split: option.split)

lemma nth_HEAP_upd:
  "a < length (HEAP s) \<Longrightarrow>
   HEAP (upd s e f) ! a = (if TELEMETRY s e = Some a then f (HEAP s ! a) else HEAP s ! a)"
  by (auto simp add: upd_def split: option.split)

lemma recordLog_fields [simp]:
  "TELEMETRY (recordLog s e m) = TELEMETRY s"
  "TIMERS (recordLog s e m) = TIMERS s"
  "clock (recordLog s e m) = clock s"
  "USER_EVENTS (recordLog s e m) = USER_EVENTS s"
  "EVENT_ORDER (recordLog s e m) = EVENT_ORDER s"
  "USER_DB (recordLog s e m) = USER_DB s"
  "DEVICE_CONTEXT_STORE (recordLog s e m) = DEVICE_CONTEXT_STORE s"
  "DEVICE_CONTEXT_PROTO (recordLog s e m) = DEVICE_CONTEXT_PROTO s"
  "proto_ack_ts (recordLog s e m) = proto_ack_ts s"
  "length (HEAP (recordLog s e m)) = length (HEAP s)"
  by (simp_all add: recordLog_def split: option.split)

lemma nth_HEAP_recordLog:
  "a < length (HEAP s) \<Longrightarrow>
   HEAP (recordLog s e m) ! a =
     (if TELEMETRY s e = Some a then (HEAP s ! a)\<lparr>logs := logs (HEAP s ! a) @ [(clock s, m)]\<rparr>
      else HEAP s ! a)"
  by (auto simp add: recordLog_def nth_HEAP_upd now_def split: option.split)

lemma create_fields [simp]:
  "TELEMETRY (create s e r) = (TELEMETRY s)(e \<mapsto> length (HEAP s))"
  "TIMERS (create s e r) = TIMERS s"
  "clock (create s e r) = clock s"
  "USER_EVENTS (create s e r) = USER_EVENTS s"
  "EVENT_ORDER (create s e r) = EVENT_ORDER s"
  "USER_DB (create s e r) = USER_DB s"
  "DEVICE_CONTEXT_STORE (create s e r) = DEVICE_CONTEXT_STORE s"
  "DEVICE_CONTEXT_PROTO (create s e r) = DEVICE_CONTEXT_PROTO s"
  "proto_ack_ts (create s e r) = proto_ack_ts s"
  "HEAP (create s e r) = HEAP s @ [r]"
  by (simp_all add: create_def)

lemma noteOrder_fields [simp]:
  "TELEMETRY (noteOrder s e) = TELEMETRY s"
  "TIMERS (noteOrder s e) = TIMERS s"
  "clock (noteOrder s e) = clock s"
  "USER_EVENTS (noteOrder s e) = USER_EVENTS s"
  "USER_DB (noteOrder s e) = USER_DB s"
  "DEVICE_CONTEXT_STORE (noteOrder s e) = DEVICE_CONTEXT_STORE s"
  "DEVICE_CONTEXT_PROTO (noteOrder s e) = DEVICE_CONTEXT_PROTO s"
  "proto_ack_ts (noteOrder s e) = proto_ack_ts s"
  "HEAP (noteOrder s e) = HEAP s"
  by (simp_all add: noteOrder_def)

lemma pushed_fields [simp]:
  "TELEMETRY (pushed s u e) = TELEMETRY s"
  "TIMERS (pushed s u e) = TIMERS s"
  "clock (pushed s u e) = clock s"
  "EVENT_ORDER (pushed s u e) = EVENT_ORDER s"
  "USER_DB (pushed s u e) = USER_DB s"
  "DEVICE_CONTEXT_STORE (pushed s u e) = DEVICE_CONTEXT_STORE s"
  "DEVICE_CONTEXT_PROTO (pushed s u e) = DEVICE_CONTEXT_PROTO s"
  "proto_ack_ts (pushed s u e) = proto_ack_ts s"
  "HEAP (pushed s u e) = HEAP s"
  by (simp_all add: pushed_def)

lemma pushUserEvent_eq [simp]:
  "pushUserEvent s u e = (if push_throws s u then Inl TypeError else Inr (pushed s u e))"
  by (simp add: pushUserEvent_def push_throws_def pushed_def split: option.split)

lemma push_throws_frame [simp]:
  "push_throws (create s e r) u = push_throws s u"
  "push_throws (noteOrder s e) u = push_throws s u"
  "push_throws (s\<lparr>clock := t\<rparr>) u = push_throws s u"
  by (simp_all add: push_throws_def inherited_def)

lemma store_context_fields [simp]:
  "TELEMETRY (store_context s k c) = TELEMETRY s"
  "TIMERS (store_context s k c) = TIMERS s"
  "clock (store_context s k c) = clock s"
  "USER_EVENTS (store_context s k c) = USER_EVENTS s"
  "EVENT_ORDER (store_context s k c) = EVENT_ORDER s"
  "USER_DB (store_context s k c) = USER_DB s"
  "proto_ack_ts (store_context s k c) = proto_ack_ts s"
  "HEAP (store_context s k c) = HEAP s"
  by (simp_all add: store_context_def split: option.split)

lemma setTimeout_fields [simp]:
  "TELEMETRY (setTimeout s cb) = TELEMETRY s"
  "TIMERS (setTimeout s cb) = TIMERS s @ [\<lparr>t_due = clock s + WHATSAPP_TIMEOUT_MS, t_callback = cb\<rparr>]"
  "clock (setTimeout s cb) = clock s"
  "USER_EVENTS (setTimeout s cb) = USER_EVENTS s"
  "EVENT_ORDER (setTimeout s cb) = EVENT_ORDER s"
  "USER_DB (setTimeout s cb) = USER_DB s"
  "DEVICE_CONTEXT_STORE (setTimeout s cb) = DEVICE_CONTEXT_STORE s"
  "DEVICE_CONTEXT_PROTO (setTimeout s cb) = DEVICE_CONTEXT_PROTO s"
  "proto_ack_ts (setTimeout s cb) = proto_ack_ts s"
  "HEAP (setTimeout s cb) = HEAP s"
  by (simp_all add: setTimeout_def now_def)

lemma route_fields [simp]:
  "TELEMETRY (route s e c m) = TELEMETRY s"
  "TIMERS (route s e c m) = TIMERS s"
  "clock (route s e c m) = clock s"
  "USER_EVENTS (route s e c m) = USER_EVENTS s"
  "EVENT_ORDER (route s e c m) = EVENT_ORDER s"
  "USER_DB (route s e c m) = USER_DB s"
  "DEVICE_CONTEXT_STORE (route s e c m) = DEVICE_CONTEXT_STORE s"
  "DEVICE_CONTEXT_PROTO (route s e c m) = DEVICE_CONTEXT_PROTO s"
  "proto_ack_ts (route s e c m) = proto_ack_ts s"
  "length (HEAP (route s e c m)) = length (HEAP s)"
  by (simp_all add: route_def Let_def)

lemma nth_HEAP_route:
  "a < length (HEAP s) \<Longrightarrow>
   HEAP (route s e c m) ! a =
     (if TELEMETRY s e = Some a
      then (HEAP s ! a)\<lparr>chosen_channel := Some c, sent_ts := Some (clock s),
             logs := logs (HEAP s ! a) @ [(clock s, m)]\<rparr>
      else HEAP s ! a)"
  by (simp add: route_def Let_def nth_HEAP_recordLog nth_HEAP_upd now_def)


lemma context_of_frame [simp]:
  "context_of (create s e r) u = context_of s u"
  "context_of (noteOrder s e) u = context_of s u"
  "context_of (pushed s u' e) u = context_of s u"
  "context_of (upd s e f) u = context_of s u"
  "context_of (recordLog s e m) u = context_of s u"
  "context_of (route s e c m) u = context_of s u"
  "context_of (setTimeout s cb) u = context_of s u"
  "context_of (s\<lparr>clock := t\<rparr>) u = context_of s u"
  "context_of (s\<lparr>TIMERS := ts\<rparr>) u = context_of s u"
  "context_of (s\<lparr>proto_ack_ts := b\<rparr>) u = context_of s u"
  "context_of (s\<lparr>USER_DB := db\<rparr>) u = context_of s u"
  by (simp_all add: context_of_def)

lemma demo_user_pushes [simp]: "\<not> push_throws s ''demo_user''"
  by (simp add: push_throws_def inherited_def object_prototype_names_def)

text \<open>The definitions to unfold when a handler is evaluated on concrete stores.\<close>

lemmas handler_defs =
  send_notification_def respond_def dispatch_ctx_def login_def complete_binding_def
  update_context_def ack_def fire_def route_def setTimeout_def recordLog_def upd_def create_def
  noteOrder_def pushed_def push_throws_def inherited_def object_prototype_names_def
  context_of_def read_context_def store_context_def inbox_def new_record_def lookup_def now_def or_else_def spread_def
  init_state_def demo_context_def WHATSAPP_TIMEOUT_MS_def Let_def

lemma dispatch_ctx_overlay:
  "dispatch_ctx s body =
     overlay (context_of s (or_else (b_user_id body) ''demo_user''))
       (spread (b_user_context body))"
  by (rule ext) (simp add: dispatch_ctx_def overlay_def map_add_def Let_def)

lemma complete_binding_store [simp]:
  "DEVICE_CONTEXT_STORE (complete_binding s uid d eid) = DEVICE_CONTEXT_STORE s"
  "DEVICE_CONTEXT_PROTO (complete_binding s uid d eid) = DEVICE_CONTEXT_PROTO s"
  "context_of (complete_binding s uid d eid) u = context_of s u"
  by (simp_all add: complete_binding_def context_of_def Let_def split: option.split)

subsection \<open>Acknowledged records\<close>

lemma ack_kept:
  "a < length (HEAP s) \<Longrightarrow> ack_ts (HEAP s ! a) \<noteq> None \<Longrightarrow> kept a s (ack s e ch)"
  by (simp add: kept_def ack_def nth_HEAP_recordLog nth_HEAP_upd)

lemma login_kept:
  "a < length (HEAP s) \<Longrightarrow> ack_ts (HEAP s ! a) \<noteq> None \<Longrightarrow> kept a s (fst (login s u d uuid))"
  by (simp add: kept_def login_def Let_def nth_HEAP_recordLog nth_HEAP_upd nth_append)

lemma complete_binding_kept:
  "a < length (HEAP s) \<Longrightarrow> ack_ts (HEAP s ! a) \<noteq> None \<Longrightarrow>
   kept a s (complete_binding s u d eid)"
  by (simp add: kept_def complete_binding_def Let_def nth_HEAP_recordLog nth_HEAP_upd
      split: option.split)

lemma send_notification_kept:
  "a < length (HEAP s) \<Longrightarrow> ack_ts (HEAP s ! a) \<noteq> None \<Longrightarrow>
   kept a s (fst (send_notification s b uuid))"
  by (simp add: kept_def send_notification_def respond_def Let_def nth_HEAP_route nth_append)

lemma update_context_kept:
  "a < length (HEAP s) \<Longrightarrow> ack_ts (HEAP s ! a) \<noteq> None \<Longrightarrow> kept a s (update_context s u c)"
  by (simp add: kept_def update_context_def Let_def)

lemma run_callback_kept:
  "a < length (HEAP s) \<Longrightarrow> ack_ts (HEAP s ! a) \<noteq> None \<Longrightarrow> kept a s (run_callback s cb)"
  by (cases cb)
    (auto simp add: kept_def lookup_def Let_def nth_HEAP_recordLog nth_HEAP_upd
      split: option.split)

lemma fire_kept:
  "a < length (HEAP s) \<Longrightarrow> ack_ts (HEAP s ! a) \<noteq> None \<Longrightarrow> kept a s (fire s i)"
  using run_callback_kept
    [of a "s\<lparr>TIMERS := take i (TIMERS s) @ drop (Suc i) (TIMERS s)\<rparr>" "t_callback (TIMERS s ! i)"]
  by (simp add: fire_def kept_def)

lemma tick_kept:
  "a < length (HEAP s) \<Longrightarrow> ack_ts (HEAP s ! a) \<noteq> None \<Longrightarrow>
   kept a s (s\<lparr>clock := clock s + d\<rparr>)"
  by (simp add: kept_def)

lemma step_kept:
  "step s x = Some s' \<Longrightarrow> a < length (HEAP s) \<Longrightarrow> ack_ts (HEAP s ! a) \<noteq> None \<Longrightarrow>
   kept a s s'"
  by (cases x)
    (auto simp add: update_context_kept login_kept complete_binding_kept send_notification_kept
       ack_kept fire_kept tick_kept split: if_splits)

lemma run_kept:
  "run s ops = Some s' \<Longrightarrow> a < length (HEAP s) \<Longrightarrow> ack_ts (HEAP s ! a) \<noteq> None \<Longrightarrow>
   kept a s s'"
proof (induction ops arbitrary: s)
  case Nil
  then show ?case by (simp add: kept_def)
next
  case (Cons x xs)
  then obtain s1 where s1: "step s x = Some s1" "run s1 xs = Some s'"
    by (auto split: option.splits)
  from step_kept [OF s1(1) Cons.prems(2,3)] have k: "kept a s s1" .
  then have "kept a s1 s'" using Cons.IH [OF s1(2)] by (simp add: kept_def)
  with k show ?case by (simp add: kept_def)
qed

subsection \<open>Well-formed stores\<close>

lemma wf_init_state: "wf_stores (init_state t0)"
  by (simp add: wf_stores_def init_state_def)

lemma wf_flag [simp]: "wf_stores (s\<lparr>proto_ack_ts := b\<rparr>) = wf_stores s"
  by (simp add: wf_stores_def)

lemma wf_store_context [simp]: "wf_stores (store_context s k c) = wf_stores s"
  by (simp add: wf_stores_def)

lemma wf_upd [simp]: "wf_stores (upd s e f) = wf_stores s"
  by (simp add: wf_stores_def)

lemma wf_recordLog [simp]: "wf_stores (recordLog s e m) = wf_stores s"
  by (simp add: wf_stores_def)

lemma wf_route [simp]: "wf_stores (route s e c m) = wf_stores s"
  by (simp add: wf_stores_def)

lemma wf_noteOrder [simp]: "wf_stores (noteOrder s e) = wf_stores s"
  by (simp add: wf_stores_def)

lemma wf_pushed [simp]: "wf_stores (pushed s u e) = wf_stores s"
  by (simp add: wf_stores_def)

lemma wf_create: "wf_stores s \<Longrightarrow> wf_stores (create s e r)"
  unfolding wf_stores_def by (simp add: less_Suc_eq) (metis less_irrefl)

lemma wf_setTimeout:
  "wf_stores s \<Longrightarrow> TELEMETRY s (callback_event cb) \<noteq> None \<Longrightarrow> wf_stores (setTimeout s cb)"
  by (auto simp add: wf_stores_def)

lemma wf_login: "wf_stores s \<Longrightarrow> wf_stores (fst (login s u d uuid))"
  by (simp add: login_def Let_def wf_create)

lemma wf_send_notification: "wf_stores s \<Longrightarrow> wf_stores (fst (send_notification s b uuid))"
  by (simp add: send_notification_def respond_def Let_def wf_create wf_setTimeout)

lemma wf_complete_binding: "wf_stores s \<Longrightarrow> wf_stores (complete_binding s u d eid)"
  by (simp add: complete_binding_def Let_def wf_stores_def split: option.split)

lemma wf_update_context: "wf_stores s \<Longrightarrow> wf_stores (update_context s u c)"
  by (simp add: update_context_def Let_def wf_stores_def)

lemma wf_ack: "wf_stores s \<Longrightarrow> wf_stores (ack s e ch)"
  by (simp add: ack_def)

lemma wf_run_callback: "wf_stores s \<Longrightarrow> wf_stores (run_callback s cb)"
  by (cases cb) (simp_all add: Let_def split: option.split)

lemma wf_drop_timer:
  "wf_stores s \<Longrightarrow> wf_stores (s\<lparr>TIMERS := take i (TIMERS s) @ drop (Suc i) (TIMERS s)\<rparr>)"
  by (auto simp add: wf_stores_def dest: in_set_takeD in_set_dropD)

lemma wf_fire: "wf_stores s \<Longrightarrow> wf_stores (fire s i)"
  by (simp add: fire_def wf_run_callback wf_drop_timer)

lemma wf_tick: "wf_stores s \<Longrightarrow> wf_stores (s\<lparr>clock := clock s + d\<rparr>)"
  by (simp add: wf_stores_def)

lemma step_wf: "step s x = Some s' \<Longrightarrow> wf_stores s \<Longrightarrow> wf_stores s'"
  by (cases x)
    (auto simp add: wf_login wf_send_notification wf_complete_binding wf_update_context wf_ack
       wf_fire wf_tick split: if_splits)

lemma run_wf: "run s ops = Some s' \<Longrightarrow> wf_stores s \<Longrightarrow> wf_stores s'"
  by (induction ops arbitrary: s) (auto split: option.splits dest: step_wf)

text \<open>So every state the server reaches from its initial stores is well formed.\<close>

lemma reachable_wf: "run (init_state t0) ops = Some s \<Longrightarrow> wf_stores s"
  using wf_init_state by (rule run_wf [rotated])

subsection \<open>Acknowledgment, timers, dispatch\<close>

lemma nth_HEAP_ack:
  "a < length (HEAP s) \<Longrightarrow> TELEMETRY s e = Some a \<Longrightarrow>
   HEAP (ack s e ch) ! a =
     (HEAP s ! a)\<lparr>ack_ts := Some (clock s),
        logs := logs (HEAP s ! a) @ [(clock s, ''ACK received via '' @ ch)]\<rparr>"
  by (simp add: ack_def nth_HEAP_recordLog nth_HEAP_upd now_def)

lemma ack_fields [simp]:
  "TELEMETRY (ack s e ch) = TELEMETRY s"
  "TIMERS (ack s e ch) = TIMERS s"
  "clock (ack s e ch) = clock s"
  "length (HEAP (ack s e ch)) = length (HEAP s)"
  "DEVICE_CONTEXT_STORE (ack s e ch) = DEVICE_CONTEXT_STORE s"
  "DEVICE_CONTEXT_PROTO (ack s e ch) = DEVICE_CONTEXT_PROTO s"
  by (simp_all add: ack_def)

lemma run_callback_fields [simp]:
  "TELEMETRY (run_callback s cb) = TELEMETRY s"
  "TIMERS (run_callback s cb) = TIMERS s"
  "clock (run_callback s cb) = clock s"
  "length (HEAP (run_callback s cb)) = length (HEAP s)"
  "DEVICE_CONTEXT_STORE (run_callback s cb) = DEVICE_CONTEXT_STORE s"
  "DEVICE_CONTEXT_PROTO (run_callback s cb) = DEVICE_CONTEXT_PROTO s"
  by (cases cb; simp add: Let_def split: option.split)+

lemma nth_HEAP_run_callback:
  "a < length (HEAP s) \<Longrightarrow> TELEMETRY s (callback_event cb) = Some a \<Longrightarrow>
   ack_ts (HEAP s ! a) = None \<Longrightarrow>
   HEAP (run_callback s cb) ! a =
     (HEAP s ! a)\<lparr>fallback_triggered := True, fallback_channel := Some (spec_fallback cb),
        logs := logs (HEAP s ! a) @
          [(clock s, ''No ACK -> Fallback to '' @ channel_name (spec_fallback cb))]\<rparr>"
  by (cases cb) (simp_all add: lookup_def Let_def nth_HEAP_recordLog nth_HEAP_upd)

lemma fire_fields [simp]:
  "TELEMETRY (fire s i) = TELEMETRY s"
  "TIMERS (fire s i) = take i (TIMERS s) @ drop (Suc i) (TIMERS s)"
  "clock (fire s i) = clock s"
  "length (HEAP (fire s i)) = length (HEAP s)"
  "DEVICE_CONTEXT_STORE (fire s i) = DEVICE_CONTEXT_STORE s"
  "DEVICE_CONTEXT_PROTO (fire s i) = DEVICE_CONTEXT_PROTO s"
  by (simp_all add: fire_def)

lemma nth_HEAP_fire:
  "a < length (HEAP s) \<Longrightarrow> TELEMETRY s (callback_event (t_callback (TIMERS s ! i))) = Some a \<Longrightarrow>
   ack_ts (HEAP s ! a) = None \<Longrightarrow>
   HEAP (fire s i) ! a =
     (HEAP s ! a)\<lparr>fallback_triggered := True,
        fallback_channel := Some (spec_fallback (t_callback (TIMERS s ! i))),
        logs := logs (HEAP s ! a) @
          [(clock s, ''No ACK -> Fallback to ''
              @ channel_name (spec_fallback (t_callback (TIMERS s ! i))))]\<rparr>"
  using nth_HEAP_run_callback
    [of a "s\<lparr>TIMERS := take i (TIMERS s) @ drop (Suc i) (TIMERS s)\<rparr>" "t_callback (TIMERS s ! i)"]
  by (simp add: fire_def)

lemma TIMERS_send_notification:
  "TIMERS (fst (send_notification s body uuid)) = TIMERS s @ armed s body uuid"
  by (simp add: send_notification_def respond_def Let_def armed_def select_on_def spec_select_def)

lemma send_notification_fields [simp]:
  "TELEMETRY (fst (send_notification s body uuid)) =
     (TELEMETRY s)(or_else (b_event_id body) uuid \<mapsto> length (HEAP s))"
  "clock (fst (send_notification s body uuid)) = clock s"
  "length (HEAP (fst (send_notification s body uuid))) = Suc (length (HEAP s))"
  by (simp_all add: send_notification_def respond_def Let_def)

lemma send_notification_result:
  "snd (send_notification s body uuid) = Inr res \<Longrightarrow>
   r_event_id res = or_else (b_event_id body) uuid \<and>
   r_chosen_channel res = select_on (dispatch_ctx s body) \<and>
   \<not> push_throws s (or_else (b_user_id body) ''demo_user'')"
  by (auto simp add: send_notification_def respond_def Let_def select_on_def spec_select_def
      split: if_splits)

subsection \<open>Pending timers\<close>

lemma filter_remove_nth_le:
  "length (filter P (take i xs @ drop (Suc i) xs)) \<le> length (filter P xs)"
proof (cases "i < length xs")
  case True
  then have "xs = take i xs @ xs ! i # drop (Suc i) xs" by (rule id_take_nth_drop)
  then have "length (filter P xs) = length (filter P (take i xs @ xs ! i # drop (Suc i) xs))"
    by simp
  then show ?thesis by simp
next
  case False
  then show ?thesis by simp
qed

lemma pending_fire: "pending (fire s i) e \<le> pending s e"
  by (simp add: pending_def filter_remove_nth_le del: filter_append)

lemma armed_events:
  "filter (\<lambda>t. callback_event (t_callback t) = e) (armed s body uuid) =
     (if or_else (b_event_id body) uuid = e then armed s body uuid else [])"
  by (simp add: armed_def Let_def)

lemma length_armed:
  "length (armed s body uuid) =
     (if push_throws s (or_else (b_user_id body) ''demo_user'') then 0
      else if select_on (dispatch_ctx s body) \<in> {PUSH, WHATSAPP} then 1 else 0)"
  by (simp add: armed_def Let_def)

lemma pending_send_notification:
  "pending (fst (send_notification s body uuid)) e =
     pending s e + (if or_else (b_event_id body) uuid = e then length (armed s body uuid) else 0)"
  by (simp add: pending_def TIMERS_send_notification armed_events)

lemma TIMERS_login [simp]: "TIMERS (fst (login s uid dev uuid)) = TIMERS s"
  by (simp add: login_def Let_def)

lemma TIMERS_complete_binding [simp]: "TIMERS (complete_binding s uid dev eid) = TIMERS s"
  by (simp add: complete_binding_def Let_def split: option.split)

lemma TIMERS_update_context [simp]: "TIMERS (update_context s uo co) = TIMERS s"
  by (simp add: update_context_def Let_def)

lemma pending_step:
  "step s x = Some s' \<Longrightarrow> pending s' e \<le> pending s e + (if dispatches x e then 1 else 0)"
proof (cases x)
  case (SendNotification body uuid)
  assume "step s x = Some s'"
  with SendNotification have "s' = fst (send_notification s body uuid)" by simp
  then show ?thesis
    by (simp add: SendNotification pending_send_notification length_armed)
next
  case (Fire i)
  assume "step s x = Some s'"
  with Fire have "s' = fire s i" by (simp split: if_splits)
  then show ?thesis using pending_fire [of s i e] by (simp add: Fire)
qed (auto simp add: pending_def)

lemma pending_run:
  "run s ops = Some s' \<Longrightarrow>
   pending s' e \<le> pending s e + length (filter (\<lambda>x. dispatches x e) ops)"
proof (induction ops arbitrary: s)
  case Nil
  then show ?case by simp
next
  case (Cons x xs)
  then obtain s1 where s1: "step s x = Some s1" "run s1 xs = Some s'"
    by (auto split: option.splits)
  from pending_step [OF s1(1), of e] Cons.IH [OF s1(2)] show ?case by auto
qed

subsection \<open>What a dispatch stores\<close>

lemma send_notification_stores [simp]:
  "DEVICE_CONTEXT_STORE (fst (send_notification s body uuid)) = DEVICE_CONTEXT_STORE s"
  "DEVICE_CONTEXT_PROTO (fst (send_notification s body uuid)) = DEVICE_CONTEXT_PROTO s"
  "USER_DB (fst (send_notification s body uuid)) = USER_DB s"
  "proto_ack_ts (fst (send_notification s body uuid)) = proto_ack_ts s"
  "USER_EVENTS (fst (send_notification s body uuid)) =
     (if push_throws s (or_else (b_user_id body) ''demo_user'') then USER_EVENTS s
      else (USER_EVENTS s)
             (or_else (b_user_id body) ''demo_user'' \<mapsto>
                (case USER_EVENTS s (or_else (b_user_id body) ''demo_user'') of
                   None \<Rightarrow> [] | Some xs \<Rightarrow> xs) @ [or_else (b_event_id body) uuid]))"
  by (simp_all add: send_notification_def respond_def Let_def pushed_def)

lemma lookup_dispatched:
  "lookup (fst (send_notification s body uuid)) (or_else (b_event_id body) uuid) =
     Some (if push_throws s (or_else (b_user_id body) ''demo_user'')
           then new_record (or_else (b_event_id body) uuid)
                  (or_else (b_user_id body) ''demo_user'')
                  (or_else (b_event_type body) ''LOGIN_OTP'')
           else (new_record (or_else (b_event_id body) uuid)
                   (or_else (b_user_id body) ''demo_user'')
                   (or_else (b_event_type body) ''LOGIN_OTP''))
                \<lparr>chosen_channel := Some (select_on (dispatch_ctx s body)),
                 sent_ts := Some (clock s),
                 logs := [(clock s, route_line (select_on (dispatch_ctx s body)))]\<rparr>)"
  by (simp add: send_notification_def respond_def Let_def lookup_def nth_HEAP_route nth_append
      select_on_def spec_select_def new_record_def)

lemma dispatch_ctx_clock [simp]: "dispatch_ctx (s\<lparr>clock := t\<rparr>) body = dispatch_ctx s body"
  by (simp add: dispatch_ctx_def)

lemma demo_select [simp]:
  "select_on (dispatch_ctx (init_state t0) (demo_push e)) = PUSH"
  by (simp add: select_on_def spec_select_def dispatch_ctx_def demo_push_def or_else_def
      spread_def init_state_def demo_context_def context_of_def read_context_def)

lemma dispatch_ctx_send_notification [simp]:
  "dispatch_ctx (fst (send_notification s body uuid)) body' = dispatch_ctx s body'"
  by (simp add: dispatch_ctx_def context_of_def)

lemma pending_clock [simp]: "pending (s\<lparr>clock := t\<rparr>) e = pending s e"
  by (simp add: pending_def)

lemma pending_init [simp]: "pending (init_state t0) e = 0"
  by (simp add: pending_def init_state_def)

subsection \<open>Reading a record back\<close>

lemma run_callback_acked:
  "lookup s (callback_event cb) = Some r \<Longrightarrow> ack_ts r \<noteq> None \<Longrightarrow> run_callback s cb = s"
  by (cases cb) auto

lemma lookup_timers [simp]: "lookup (s\<lparr>TIMERS := ts\<rparr>) e = lookup s e"
  by (simp add: lookup_def)

lemma lookup_clock [simp]: "lookup (s\<lparr>clock := t\<rparr>) e = lookup s e"
  by (simp add: lookup_def)

lemma lookup_fire_acked:
  "lookup s (callback_event (t_callback (TIMERS s ! i))) = Some r \<Longrightarrow> ack_ts r \<noteq> None \<Longrightarrow>
   lookup (fire s i) e = lookup s e"
  using run_callback_acked
    [of "s\<lparr>TIMERS := take i (TIMERS s) @ drop (Suc i) (TIMERS s)\<rparr>" "t_callback (TIMERS s ! i)" r]
  by (simp add: fire_def)

lemma lookup_ack:
  "wf_stores s \<Longrightarrow> lookup s e = Some r \<Longrightarrow>
   lookup (ack s e ch) e =
     Some (r\<lparr>ack_ts := Some (clock s), logs := logs r @ [(clock s, ''ACK received via '' @ ch)]\<rparr>)"
  by (auto simp add: lookup_def wf_stores_def nth_HEAP_ack)

subsection \<open>Records that no operation touches\<close>

lemma login_fields [simp]:
  "TELEMETRY (fst (login s uid dev uuid)) = (TELEMETRY s)(uuid \<mapsto> length (HEAP s))"
  "clock (fst (login s uid dev uuid)) = clock s"
  "length (HEAP (fst (login s uid dev uuid))) = Suc (length (HEAP s))"
  by (simp_all add: login_def Let_def)

lemma nth_HEAP_login:
  "a < length (HEAP s) \<Longrightarrow> HEAP (fst (login s uid dev uuid)) ! a = HEAP s ! a"
  by (simp add: login_def Let_def nth_HEAP_recordLog nth_HEAP_upd nth_append)

lemma nth_HEAP_send_notification:
  "a < length (HEAP s) \<Longrightarrow> HEAP (fst (send_notification s body uuid)) ! a = HEAP s ! a"
  by (simp add: send_notification_def respond_def Let_def nth_HEAP_route nth_append)

lemma complete_binding_fields [simp]:
  "TELEMETRY (complete_binding s uid dev eid) = TELEMETRY s"
  "clock (complete_binding s uid dev eid) = clock s"
  "length (HEAP (complete_binding s uid dev eid)) = length (HEAP s)"
  by (simp_all add: complete_binding_def Let_def split: option.split)

lemma fallback_complete_binding:
  "a < length (HEAP s) \<Longrightarrow>
   fallback_triggered (HEAP (complete_binding s uid dev eid) ! a) = fallback_triggered (HEAP s ! a)"
  by (simp add: complete_binding_def Let_def nth_HEAP_recordLog nth_HEAP_upd split: option.split)

lemma fallback_ack:
  "a < length (HEAP s) \<Longrightarrow>
   fallback_triggered (HEAP (ack s e ch) ! a) = fallback_triggered (HEAP s ! a)"
  by (simp add: ack_def nth_HEAP_recordLog nth_HEAP_upd)

lemma update_context_fields [simp]:
  "TELEMETRY (update_context s uo co) = TELEMETRY s"
  "clock (update_context s uo co) = clock s"
  "HEAP (update_context s uo co) = HEAP s"
  by (simp_all add: update_context_def Let_def)

lemma nth_HEAP_run_callback_other:
  "a < length (HEAP s) \<Longrightarrow> TELEMETRY s (callback_event cb) \<noteq> Some a \<Longrightarrow>
   HEAP (run_callback s cb) ! a = HEAP s ! a"
  by (cases cb)
    (auto simp add: lookup_def Let_def nth_HEAP_recordLog nth_HEAP_upd split: option.split)

lemma nth_HEAP_fire_other:
  "a < length (HEAP s) \<Longrightarrow> TELEMETRY s (callback_event (t_callback (TIMERS s ! i))) \<noteq> Some a \<Longrightarrow>
   HEAP (fire s i) ! a = HEAP s ! a"
  using nth_HEAP_run_callback_other
    [of a "s\<lparr>TIMERS := take i (TIMERS s) @ drop (Suc i) (TIMERS s)\<rparr>" "t_callback (TIMERS s ! i)"]
  by (simp add: fire_def)

subsection \<open>The clock\<close>

lemma step_clock: "step s x = Some s' \<Longrightarrow> clock s \<le> clock s'"
  by (cases x) (auto split: if_splits)

lemma run_clock: "run s ops = Some s' \<Longrightarrow> clock s \<le> clock s'"
proof (induction ops arbitrary: s)
  case Nil
  then show ?case by simp
next
  case (Cons x xs)
  then obtain s1 where s1: "step s x = Some s1" "run s1 xs = Some s'"
    by (auto split: option.splits)
  from step_clock [OF s1(1)] Cons.IH [OF s1(2)] show ?case by simp
qed

subsection \<open>Before the deadline\<close>

lemma armed_event:
  "t \<in> set (armed s body uuid) \<Longrightarrow> callback_event (t_callback t) = or_else (b_event_id body) uuid"
  by (auto simp add: armed_def Let_def split: if_splits)

lemma armed_due:
  "t \<in> set (armed s body uuid) \<Longrightarrow> t_due t = clock s + WHATSAPP_TIMEOUT_MS"
  by (auto simp add: armed_def Let_def split: if_splits)

lemma step_quiet:
  assumes wfs: "wf_stores s" and q: "quiet s e a D" and st: "step s x = Some s'"
    and nc: "\<not> creates x e" and cl: "clock s < D"
  shows "quiet s' e a D"
proof -
  from q have tel: "TELEMETRY s e = Some a" and nf: "\<not> fallback_triggered (HEAP s ! a)"
    and tms: "\<And>t. t \<in> set (TIMERS s) \<Longrightarrow> callback_event (t_callback t) = e \<Longrightarrow> D \<le> t_due t"
    by (auto simp add: quiet_def)
  from wfs tel have a: "a < length (HEAP s)" by (auto simp add: wf_stores_def)
  show ?thesis
  proof (cases x)
    case (Tick d)
    with st q show ?thesis by (auto simp add: quiet_def)
  next
    case (UpdateContext uo co)
    with st q show ?thesis by (auto simp add: quiet_def)
  next
    case (Login uid dev uuid)
    with st nc have s': "s' = fst (login s uid dev uuid)" and ne: "uuid \<noteq> e" by auto
    show ?thesis using tel nf tms a ne
      by (auto simp add: quiet_def s' nth_HEAP_login)
  next
    case (CompleteBinding uid dev eid)
    with st have s': "s' = complete_binding s uid dev eid" by simp
    show ?thesis using tel nf tms a
      by (auto simp add: quiet_def s' fallback_complete_binding)
  next
    case (SendNotification body uuid)
    with st nc have s': "s' = fst (send_notification s body uuid)"
      and ne: "or_else (b_event_id body) uuid \<noteq> e" by auto
    show ?thesis using tel nf tms a ne
      by (auto simp add: quiet_def s' nth_HEAP_send_notification TIMERS_send_notification
          dest: armed_event)
  next
    case (Ack e' ch)
    with st have s': "s' = ack s e' ch" by simp
    show ?thesis using tel nf tms a
      by (auto simp add: quiet_def s' fallback_ack)
  next
    case (Fire i)
    with st have s': "s' = fire s i" and i: "i < length (TIMERS s)"
      and due: "t_due (TIMERS s ! i) \<le> clock s" by (auto split: if_splits)
    from i have mem: "TIMERS s ! i \<in> set (TIMERS s)" by simp
    have ne: "callback_event (t_callback (TIMERS s ! i)) \<noteq> e"
      using tms [OF mem] due cl by auto
    have "TELEMETRY s (callback_event (t_callback (TIMERS s ! i))) \<noteq> Some a"
      using wfs tel ne by (auto simp add: wf_stores_def)
    with a have same: "HEAP (fire s i) ! a = HEAP s ! a" by (rule nth_HEAP_fire_other)
    show ?thesis using tel nf tms same
      by (auto simp add: quiet_def s' dest: in_set_takeD in_set_dropD)
  qed
qed

lemma run_quiet:
  "wf_stores s \<Longrightarrow> quiet s e a D \<Longrightarrow> run s ops = Some s' \<Longrightarrow> \<forall>x \<in> set ops. \<not> creates x e \<Longrightarrow>
   clock s' < D \<Longrightarrow> quiet s' e a D"
proof (induction ops arbitrary: s)
  case Nil
  then show ?case by simp
next
  case (Cons x xs)
  then obtain s1 where s1: "step s x = Some s1" "run s1 xs = Some s'"
    by (auto split: option.splits)
  from run_clock [OF s1(2)] step_clock [OF s1(1)] Cons.prems(5) have cl: "clock s < D" by simp
  from Cons.prems(4) have nc: "\<not> creates x e" "\<forall>x \<in> set xs. \<not> creates x e" by simp_all
  have "quiet s1 e a D" using Cons.prems(1,2) s1(1) nc(1) cl by (rule step_quiet)
  moreover have "wf_stores s1" using s1(1) Cons.prems(1) by (rule step_wf)
  ultimately show ?case using s1(2) nc(2) Cons.prems(5) by (intro Cons.IH)
qed

lemma dispatch_quiet:
  assumes wfs: "wf_stores s" and none: "pending s e = 0" and id: "or_else (b_event_id body) uuid = e"
  shows "quiet (fst (send_notification s body uuid)) e (length (HEAP s))
           (clock s + WHATSAPP_TIMEOUT_MS)"
proof -
  from none have "\<And>t. t \<in> set (TIMERS s) \<Longrightarrow> callback_event (t_callback t) \<noteq> e"
    by (auto simp add: pending_def filter_empty_conv)
  moreover have "\<not> fallback_triggered (HEAP (fst (send_notification s body uuid)) ! length (HEAP s))"
    using lookup_dispatched [of s body uuid]
    by (simp add: lookup_def new_record_def)
  ultimately show ?thesis
    by (auto simp add: quiet_def id TIMERS_send_notification dest: armed_due)
qed

lemma step_same_key:
  "step s x = Some s' \<Longrightarrow> \<not> creates x e \<Longrightarrow> TELEMETRY s' e = TELEMETRY s e"
  by (cases x) (auto split: if_splits)

lemma run_same_key:
  "run s ops = Some s' \<Longrightarrow> \<forall>x \<in> set ops. \<not> creates x e \<Longrightarrow> TELEMETRY s' e = TELEMETRY s e"
proof (induction ops arbitrary: s)
  case Nil
  then show ?case by simp
next
  case (Cons x xs)
  then obtain s1 where s1: "step s x = Some s1" "run s1 xs = Some s'"
    by (auto split: option.splits)
  from Cons.prems(2) have nc: "\<not> creates x e" "\<forall>x \<in> set xs. \<not> creates x e" by simp_all
  from step_same_key [OF s1(1) nc(1)] Cons.IH [OF s1(2) nc(2)] show ?case by simp
qed

subsection \<open>Evaluating the demo\<close>

lemma init_state_fields [simp]:
  "clock (init_state t0) = t0"
  "TIMERS (init_state t0) = []"
  "HEAP (init_state t0) = []"
  "TELEMETRY (init_state t0) = Map.empty"
  "USER_EVENTS (init_state t0) = Map.empty"
  by (simp_all add: init_state_def)

lemma demo_push_fields [simp]:
  "e \<noteq> [] \<Longrightarrow> or_else (b_event_id (demo_push e)) u = e"
  "or_else (b_user_id (demo_push e)) ''demo_user'' = ''demo_user''"
  "or_else (b_event_type (demo_push e)) ''LOGIN_OTP'' = ''LOGIN_OTP''"
  by (simp_all add: demo_push_def or_else_def)

lemma dispatch_ctx_frame [simp]:
  "dispatch_ctx (ack s e ch) body = dispatch_ctx s body"
  "dispatch_ctx (fire s i) body = dispatch_ctx s body"
  by (simp_all add: dispatch_ctx_def context_of_def)

lemma demo_opt_in [simp]:
  "truthy (dispatch_ctx (init_state t0) (demo_push e) ''whatsapp_opt_in'')"
  by (simp add: dispatch_ctx_def demo_push_def or_else_def spread_def init_state_def
      demo_context_def context_of_def read_context_def)

lemma armed_PUSH:
  "\<not> push_throws s (or_else (b_user_id body) ''demo_user'') \<Longrightarrow>
   select_on (dispatch_ctx s body) = PUSH \<Longrightarrow>
   armed s body uuid =
     [\<lparr>t_due = clock s + WHATSAPP_TIMEOUT_MS,
       t_callback = PushFallback (or_else (b_event_id body) uuid) (dispatch_ctx s body)\<rparr>]"
  by (simp add: armed_def Let_def)

lemma lookup_fire:
  assumes "wf_stores s" and "lookup s (callback_event (t_callback (TIMERS s ! i))) = Some r"
    and "ack_ts r = None"
  shows "lookup (fire s i) (callback_event (t_callback (TIMERS s ! i))) =
     Some (r\<lparr>fallback_triggered := True,
             fallback_channel := Some (spec_fallback (t_callback (TIMERS s ! i))),
             logs := logs r @
               [(clock s, ''No ACK -> Fallback to ''
                   @ channel_name (spec_fallback (t_callback (TIMERS s ! i))))]\<rparr>)"
proof -
  let ?e = "callback_event (t_callback (TIMERS s ! i))"
  from assms(2) obtain a where a: "TELEMETRY s ?e = Some a" "r = HEAP s ! a"
    by (auto simp add: lookup_def)
  from assms(1) a(1) have "a < length (HEAP s)" by (auto simp add: wf_stores_def)
  from nth_HEAP_fire [OF this a(1)] assms(3) a show ?thesis
    by (simp add: lookup_def)
qed


subsection \<open>A timer that outlives its record\<close>

lemma redispatch_with_timer:
  assumes wfs: "wf_stores s" and old: "TELEMETRY s e = Some a0"
    and id: "or_else (b_event_id body) uuid = e"
    and i: "i < length (TIMERS s)" and ev: "callback_event (t_callback (TIMERS s ! i)) = e"
    and due: "t_due (TIMERS s ! i) \<le> clock s + d"
  shows "lookup (fst (send_notification s body uuid)) e =
           Some (if push_throws s (or_else (b_user_id body) ''demo_user'')
                 then new_record e (or_else (b_user_id body) ''demo_user'')
                        (or_else (b_event_type body) ''LOGIN_OTP'')
                 else (new_record e (or_else (b_user_id body) ''demo_user'')
                         (or_else (b_event_type body) ''LOGIN_OTP''))
                      \<lparr>chosen_channel := Some (select_on (dispatch_ctx s body)),
                       sent_ts := Some (clock s),
                       logs := [(clock s, route_line (select_on (dispatch_ctx s body)))]\<rparr>) \<and>
         TELEMETRY (fst (send_notification s body uuid)) e \<noteq> Some a0 \<and>
         HEAP (fst (send_notification s body uuid)) ! a0 = HEAP s ! a0 \<and>
         TIMERS (fst (send_notification s body uuid)) ! i = TIMERS s ! i \<and>
         (\<exists>u' r'. step ((fst (send_notification s body uuid))\<lparr>clock := clock s + d\<rparr>) (Fire i)
                     = Some u' \<and>
            lookup u' e = Some r' \<and> ack_ts r' = None \<and> fallback_triggered r' \<and>
            fallback_channel r' = Some (spec_fallback (t_callback (TIMERS s ! i)))) \<and>
         lookup (fire ((ack (fst (send_notification s body uuid)) e c)\<lparr>clock := clock s + d\<rparr>) i) e
           = lookup (ack (fst (send_notification s body uuid)) e c) e"
proof -
  let ?s1 = "fst (send_notification s body uuid)"
  let ?u = "?s1\<lparr>clock := clock s + d\<rparr>"
  let ?a = "length (HEAP s)"
  from wfs old have a0: "a0 < length (HEAP s)" by (auto simp add: wf_stores_def)
  have new: "lookup ?s1 e = Some (if push_throws s (or_else (b_user_id body) ''demo_user'')
                 then new_record e (or_else (b_user_id body) ''demo_user'')
                        (or_else (b_event_type body) ''LOGIN_OTP'')
                 else (new_record e (or_else (b_user_id body) ''demo_user'')
                         (or_else (b_event_type body) ''LOGIN_OTP''))
                      \<lparr>chosen_channel := Some (select_on (dispatch_ctx s body)),
                       sent_ts := Some (clock s),
                       logs := [(clock s, route_line (select_on (dispatch_ctx s body)))]\<rparr>)"
    using lookup_dispatched [of s body uuid] by (simp only: id)
  have tel: "TELEMETRY ?s1 e = Some ?a" by (simp add: id)
  then have other: "TELEMETRY ?s1 e \<noteq> Some a0" using a0 by simp
  have same: "HEAP ?s1 ! a0 = HEAP s ! a0"
    using a0 tel
    by (simp add: send_notification_def respond_def Let_def nth_HEAP_route nth_append id)
  have tm: "TIMERS ?s1 ! i = TIMERS s ! i"
    using i by (simp add: TIMERS_send_notification nth_append)
  have len: "i < length (TIMERS ?u)" using i by (simp add: TIMERS_send_notification)
  have tmu: "TIMERS ?u ! i = TIMERS s ! i" using tm by simp
  have st: "step ?u (Fire i) = Some (fire ?u i)" using len due by (simp add: tm)
  have rec: "HEAP ?s1 ! ?a = the (lookup ?s1 e)" by (simp add: lookup_def id)
  have ackn: "ack_ts (HEAP ?s1 ! ?a) = None" by (simp add: rec new new_record_def)
  have "HEAP (fire ?u i) ! ?a =
     (HEAP ?u ! ?a)\<lparr>fallback_triggered := True,
        fallback_channel := Some (spec_fallback (t_callback (TIMERS ?u ! i))),
        logs := logs (HEAP ?u ! ?a) @
          [(clock ?u, ''No ACK -> Fallback to ''
              @ channel_name (spec_fallback (t_callback (TIMERS ?u ! i))))]\<rparr>"
    using ackn by (intro nth_HEAP_fire) (simp_all add: tm ev id)
  then have fired: "lookup (fire ?u i) e = Some (HEAP (fire ?u i) ! ?a) \<and>
      ack_ts (HEAP (fire ?u i) ! ?a) = None \<and>
      fallback_triggered (HEAP (fire ?u i) ! ?a) \<and>
      fallback_channel (HEAP (fire ?u i) ! ?a) = Some (spec_fallback (t_callback (TIMERS s ! i)))"
    using ackn by (simp add: lookup_def id tm)
  have wf1: "wf_stores ?s1" using wfs by (rule wf_send_notification)
  let ?k = "(ack ?s1 e c)\<lparr>clock := clock s + d\<rparr>"
  have "lookup ?k (callback_event (t_callback (TIMERS ?k ! i))) =
      Some ((the (lookup ?s1 e))\<lparr>ack_ts := Some (clock ?s1),
         logs := logs (the (lookup ?s1 e)) @ [(clock ?s1, ''ACK received via '' @ c)]\<rparr>)"
    using lookup_ack [OF wf1 new, of c] by (simp add: tm ev new)
  then have "lookup (fire ?k i) e = lookup ?k e"
    by (rule lookup_fire_acked) simp
  then have acked: "lookup (fire ?k i) e = lookup (ack ?s1 e c) e" by simp
  from new other same tm st fired acked show ?thesis by blast
qed

subsection \<open>Keys found up the prototype chain\<close>

text \<open>
  On the initial stores, a dispatch for the user \<open>constructor\<close> is answered 500 although
  its context selects PUSH: the record is stored as the fresh literal, no timer is armed
  and no list is kept for the user.  A login of that user is answered 500 with the record
  left on ANALYZING, and so is a look at their inbox.
\<close>

lemma dispatch_for_inherited_name:
  "snd (send_notification (init_state 0)
          \<lparr>b_event_id = Some ''e1'', b_user_id = Some ''constructor'', b_event_type = None,
           b_user_context = Some [''has_app'' \<mapsto> JBool True, ''device_online'' \<mapsto> JBool True]\<rparr>
          ''u1'') = Inl InternalServerError \<and>
   lookup (fst (send_notification (init_state 0)
          \<lparr>b_event_id = Some ''e1'', b_user_id = Some ''constructor'', b_event_type = None,
           b_user_context = Some [''has_app'' \<mapsto> JBool True, ''device_online'' \<mapsto> JBool True]\<rparr>
          ''u1'')) ''e1'' = Some (new_record ''e1'' ''constructor'' ''LOGIN_OTP'') \<and>
   TIMERS (fst (send_notification (init_state 0)
          \<lparr>b_event_id = Some ''e1'', b_user_id = Some ''constructor'', b_event_type = None,
           b_user_context = Some [''has_app'' \<mapsto> JBool True, ''device_online'' \<mapsto> JBool True]\<rparr>
          ''u1'')) = [] \<and>
   USER_EVENTS (fst (send_notification (init_state 0)
          \<lparr>b_event_id = Some ''e1'', b_user_id = Some ''constructor'', b_event_type = None,
           b_user_context = Some [''has_app'' \<mapsto> JBool True, ''device_online'' \<mapsto> JBool True]\<rparr>
          ''u1'')) ''constructor'' = None"
  by (simp add: handler_defs)

lemma login_for_inherited_name:
  "snd (login (init_state 0) ''constructor'' ''device_1'' ''u1'') = Inl InternalServerError \<and>
   lookup (fst (login (init_state 0) ''constructor'' ''device_1'' ''u1'')) ''u1'' =
     Some \<lparr>event_id = ''u1'', user_id = ''constructor'', event_type = ''LOGIN_ATTEMPT'',
           chosen_channel = Some ANALYZING, sent_ts = Some 0, ack_ts = None,
           fallback_triggered = False, fallback_channel = None, logs = []\<rparr>"
  by (simp add: handler_defs)

lemma inbox_for_inherited_name:
  "inbox (init_state 0) ''constructor'' = Inl InternalServerError \<and>
   inbox (init_state 0) ''nobody'' = Inr []"
  by (simp add: handler_defs List.map_filter_def)

text \<open>
  An acknowledgment of the event id \<open>__proto__\<close>, under which nothing is stored, assigns
  \<open>Object.prototype.ack_ts\<close>; from then on the user \<open>ack_ts\<close> is one for whom
  \<open>pushUserEvent\<close> throws.
\<close>

lemma ack_ts_on_the_prototype:
  "\<not> push_throws (init_state 0) ''ack_ts'' \<and>
   push_throws (ack (init_state 0) ''__proto__'' ''PUSH'') ''ack_ts''"
  by (simp add: handler_defs)

text \<open>
  A context stored for the user \<open>__proto__\<close> becomes the prototype of the store, and an
  object in it is the context of the user it is named after.
\<close>

lemma context_up_the_chain:
  "map_sum id r_chosen_channel
     (snd (send_notification
        (update_context (init_state 0) (Some ''__proto__'')
           (Some [''alice'' \<mapsto> JObj [''has_app'' \<mapsto> JBool True, ''is_active'' \<mapsto> JBool True,
                                      ''device_online'' \<mapsto> JBool True]]))
        \<lparr>b_event_id = Some ''e1'', b_user_id = Some ''alice'', b_event_type = None,
         b_user_context = None\<rparr> ''u1'')) = Inr IN_APP \<and>
   map_sum id r_chosen_channel
     (snd (send_notification (init_state 0)
        \<lparr>b_event_id = Some ''e1'', b_user_id = Some ''alice'', b_event_type = None,
         b_user_context = None\<rparr> ''u1'')) = Inr SMS"
  by (simp add: handler_defs)

section \<open>Claims\<close>

subsection \<open>C1: acknowledgment against the timer\<close>

text \<open>
  C1 as stated fails when an event id is dispatched again while the timer of the earlier
  dispatch is pending.  On the initial stores, \<open>e1\<close> is dispatched on PUSH at 0 ms and
  again at 10000 ms, so the deadline of the second dispatch is 30000 ms.  The timer of the
  first dispatch fires at 20000 ms, finds the record of the second dispatch
  unacknowledged and escalates it.  The acknowledgment at 25000 ms is strictly before
  the deadline, and the record has \<open>fallback_triggered = true\<close>.  The second run has the
  acknowledgment first (at 5000 ms): after the id is dispatched again, the timer of the
  first dispatch escalates the event all the same.
\<close>

theorem stale_timer_escalates:
  "observe
     [SendNotification (demo_push ''e1'') ''u1'', Tick 10000,
      SendNotification (demo_push ''e1'') ''u2'', Tick 10000, Fire 0, Tick 5000,
      Ack ''e1'' ''PUSH''] ''e1'' =
     Some \<lparr>event_id = ''e1'', user_id = ''demo_user'', event_type = ''LOGIN_OTP'',
           chosen_channel = Some PUSH, sent_ts = Some 10000, ack_ts = Some 25000,
           fallback_triggered = True, fallback_channel = Some WHATSAPP,
           logs = [(10000, ''Route: PUSH (Background notification)''),
                   (20000, ''No ACK -> Fallback to WHATSAPP''),
                   (25000, ''ACK received via PUSH'')]\<rparr> \<and>
   25000 < 10000 + WHATSAPP_TIMEOUT_MS \<and>
   observe
     [SendNotification (demo_push ''e1'') ''u1'', Tick 5000, Ack ''e1'' ''PUSH'', Tick 5000,
      SendNotification (demo_push ''e1'') ''u2'', Tick 10000, Fire 0] ''e1'' =
     Some \<lparr>event_id = ''e1'', user_id = ''demo_user'', event_type = ''LOGIN_OTP'',
           chosen_channel = Some PUSH, sent_ts = Some 10000, ack_ts = None,
           fallback_triggered = True, fallback_channel = Some WHATSAPP,
           logs = [(10000, ''Route: PUSH (Background notification)''),
                   (20000, ''No ACK -> Fallback to WHATSAPP'')]\<rparr>"
proof -
  let ?b = "demo_push ''e1''"
  let ?s1 = "fst (send_notification (init_state 0) ?b ''u1'')"
  have wf1: "wf_stores ?s1" by (simp add: wf_send_notification wf_init_state)
  have tm1: "armed (init_state 0) ?b ''u1'' = [\<lparr>t_due = 20000, t_callback =
      PushFallback ''e1'' (dispatch_ctx (init_state 0) ?b)\<rparr>]"
    by (simp add: armed_PUSH WHATSAPP_TIMEOUT_MS_def)
  text \<open>First run: the second dispatch is acknowledged before its own deadline.\<close>
  let ?s2 = "fst (send_notification (?s1\<lparr>clock := 10000\<rparr>) ?b ''u2'')"
  let ?u = "?s2\<lparr>clock := 20000\<rparr>"
  let ?s3 = "fire ?u 0"
  let ?s4 = "ack (?s3\<lparr>clock := 25000\<rparr>) ''e1'' ''PUSH''"
  have wfu: "wf_stores ?u"
    using wf_tick [OF wf_send_notification [OF wf_tick [OF wf1, of 10000], of ?b "''u2''"], of 10000]
    by simp
  have tmu: "TIMERS ?s2 ! 0 = \<lparr>t_due = 20000, t_callback =
      PushFallback ''e1'' (dispatch_ctx (init_state 0) ?b)\<rparr>"
    by (simp add: TIMERS_send_notification tm1)
  have l2: "lookup ?u ''e1'' =
     Some \<lparr>event_id = ''e1'', user_id = ''demo_user'', event_type = ''LOGIN_OTP'',
           chosen_channel = Some PUSH, sent_ts = Some 10000, ack_ts = None,
           fallback_triggered = False, fallback_channel = None,
           logs = [(10000, ''Route: PUSH (Background notification)'')]\<rparr>"
    using lookup_dispatched [of "?s1\<lparr>clock := 10000\<rparr>" ?b "''u2''"]
    by (simp add: new_record_def)
  have l3: "lookup ?s3 ''e1'' =
     Some \<lparr>event_id = ''e1'', user_id = ''demo_user'', event_type = ''LOGIN_OTP'',
           chosen_channel = Some PUSH, sent_ts = Some 10000, ack_ts = None,
           fallback_triggered = True, fallback_channel = Some WHATSAPP,
           logs = [(10000, ''Route: PUSH (Background notification)''),
                   (20000, ''No ACK -> Fallback to WHATSAPP'')]\<rparr>"
    using lookup_fire [OF wfu, of 0] l2 by (simp add: tmu)
  have wf3: "wf_stores (?s3\<lparr>clock := 25000\<rparr>)"
    using wf_tick [OF wf_fire [OF wfu, of 0], of 5000] by simp
  have l4: "lookup ?s4 ''e1'' =
     Some \<lparr>event_id = ''e1'', user_id = ''demo_user'', event_type = ''LOGIN_OTP'',
           chosen_channel = Some PUSH, sent_ts = Some 10000, ack_ts = Some 25000,
           fallback_triggered = True, fallback_channel = Some WHATSAPP,
           logs = [(10000, ''Route: PUSH (Background notification)''),
                   (20000, ''No ACK -> Fallback to WHATSAPP''),
                   (25000, ''ACK received via PUSH'')]\<rparr>"
    using lookup_ack [OF wf3, of "''e1''" _ "''PUSH''"] l3 by simp
  have run1: "run (init_state 0)
     [SendNotification ?b ''u1'', Tick 10000, SendNotification ?b ''u2'', Tick 10000, Fire 0,
      Tick 5000, Ack ''e1'' ''PUSH''] = Some ?s4"
    by (simp add: TIMERS_send_notification tm1)
  text \<open>Second run: the first dispatch is acknowledged, then the id is dispatched again.\<close>
  let ?t2 = "fst (send_notification ((ack (?s1\<lparr>clock := 5000\<rparr>) ''e1'' ''PUSH'')\<lparr>clock := 10000\<rparr>)
                ?b ''u2'')"
  let ?v = "?t2\<lparr>clock := 20000\<rparr>"
  have wfv: "wf_stores ?v"
    using wf_tick [OF wf_send_notification
        [OF wf_tick [OF wf_ack [OF wf_tick [OF wf1, of 5000], of "''e1''" "''PUSH''"], of 5000],
          of ?b "''u2''"], of 10000]
    by simp
  have tmv: "TIMERS ?t2 ! 0 = \<lparr>t_due = 20000, t_callback =
      PushFallback ''e1'' (dispatch_ctx (init_state 0) ?b)\<rparr>"
    by (simp add: TIMERS_send_notification tm1)
  have m2: "lookup ?v ''e1'' =
     Some \<lparr>event_id = ''e1'', user_id = ''demo_user'', event_type = ''LOGIN_OTP'',
           chosen_channel = Some PUSH, sent_ts = Some 10000, ack_ts = None,
           fallback_triggered = False, fallback_channel = None,
           logs = [(10000, ''Route: PUSH (Background notification)'')]\<rparr>"
    using lookup_dispatched
      [of "(ack (?s1\<lparr>clock := 5000\<rparr>) ''e1'' ''PUSH'')\<lparr>clock := 10000\<rparr>" ?b "''u2''"]
    by (simp add: new_record_def)
  have m3: "lookup (fire ?v 0) ''e1'' =
     Some \<lparr>event_id = ''e1'', user_id = ''demo_user'', event_type = ''LOGIN_OTP'',
           chosen_channel = Some PUSH, sent_ts = Some 10000, ack_ts = None,
           fallback_triggered = True, fallback_channel = Some WHATSAPP,
           logs = [(10000, ''Route: PUSH (Background notification)''),
                   (20000, ''No ACK -> Fallback to WHATSAPP'')]\<rparr>"
    using lookup_fire [OF wfv, of 0] m2 by (simp add: tmv)
  have run2: "run (init_state 0)
     [SendNotification ?b ''u1'', Tick 5000, Ack ''e1'' ''PUSH'', Tick 5000,
      SendNotification ?b ''u2'', Tick 10000, Fire 0] = Some (fire ?v 0)"
    by (simp add: TIMERS_send_notification tm1)
  show ?thesis
    by (simp only: observe_def run1 run2 Option.bind.simps l4 m3)
      (simp add: WHATSAPP_TIMEOUT_MS_def)
qed


text \<open>
  C1, amended.  Take a dispatch under an event id against which no timer of an earlier
  dispatch is pending.  If \<open>/ack\<close> is called for the event strictly before the deadline
  (\<open>WHATSAPP_TIMEOUT_MS\<close> after the dispatch), the id not having been stored anew in
  between, then the record is not escalated at that moment and \<open>fallback_triggered\<close> stays
  false on that record for ever after, under every later run of operations (timers
  firing and later dispatches of the same id included); \<open>ack_ts\<close> stays non-null on it.
  As long as the id is not stored anew, that record is the one a reader finds under the
  id.
\<close>

theorem ack_before_deadline:
  assumes wfs: "wf_stores s" and none: "pending s e = 0" and id: "or_else (b_event_id body) uuid = e"
    and r1: "run (fst (send_notification s body uuid)) ops = Some s2"
    and once: "\<forall>x \<in> set ops. \<not> creates x e"
    and before: "clock s2 < clock s + WHATSAPP_TIMEOUT_MS"
    and r2: "run (ack s2 e ch) ops' = Some s3"
  shows "TELEMETRY s2 e = Some (length (HEAP s)) \<and>
         \<not> fallback_triggered (HEAP s2 ! length (HEAP s)) \<and>
         ack_ts (HEAP s3 ! length (HEAP s)) \<noteq> None \<and>
         \<not> fallback_triggered (HEAP s3 ! length (HEAP s)) \<and>
         ((\<forall>x \<in> set ops'. \<not> creates x e) \<longrightarrow>
            (\<exists>r. lookup s3 e = Some r \<and> ack_ts r \<noteq> None \<and> \<not> fallback_triggered r))"
proof -
  let ?s1 = "fst (send_notification s body uuid)"
  let ?a = "length (HEAP s)"
  let ?D = "clock s + WHATSAPP_TIMEOUT_MS"
  have wf1: "wf_stores ?s1" using wfs by (rule wf_send_notification)
  have "quiet ?s1 e ?a ?D" using wfs none id by (rule dispatch_quiet)
  with wf1 have q2: "quiet s2 e ?a ?D" using r1 once before by (rule run_quiet)
  then have tel: "TELEMETRY s2 e = Some ?a" and nf: "\<not> fallback_triggered (HEAP s2 ! ?a)"
    by (simp_all add: quiet_def)
  have wf2: "wf_stores s2" using r1 wf1 by (rule run_wf)
  with tel have a: "?a < length (HEAP s2)" by (auto simp add: wf_stores_def)
  have acked: "ack_ts (HEAP (ack s2 e ch) ! ?a) \<noteq> None"
    using a tel by (simp add: nth_HEAP_ack)
  have nf': "\<not> fallback_triggered (HEAP (ack s2 e ch) ! ?a)"
    using a nf by (simp add: fallback_ack)
  have "kept ?a (ack s2 e ch) s3" using r2 acked a by (intro run_kept) simp_all
  with nf' have fin: "ack_ts (HEAP s3 ! ?a) \<noteq> None" "\<not> fallback_triggered (HEAP s3 ! ?a)"
    by (simp_all add: kept_def)
  have "\<exists>r. lookup s3 e = Some r \<and> ack_ts r \<noteq> None \<and> \<not> fallback_triggered r"
    if "\<forall>x \<in> set ops'. \<not> creates x e"
  proof -
    from run_same_key [OF r2 that] tel have "TELEMETRY s3 e = Some ?a" by simp
    with fin show ?thesis by (simp add: lookup_def)
  qed
  with tel nf fin show ?thesis by blast
qed

text \<open>
  On the initial stores: \<open>e1\<close> is dispatched on PUSH, acknowledged 5000 ms later, and the
  timer fires at 20000 ms; the record a reader finds under \<open>e1\<close> is acknowledged and not
  escalated.
\<close>

theorem ack_before_deadline_witness:
  "\<exists>r. observe
          [SendNotification (demo_push ''e1'') ''u1'', Tick 5000, Ack ''e1'' ''PUSH'',
           Tick 15000, Fire 0] ''e1'' = Some r \<and>
       ack_ts r \<noteq> None \<and> \<not> fallback_triggered r"
proof -
  let ?b = "demo_push ''e1''"
  let ?s1 = "fst (send_notification (init_state 0) ?b ''u1'')"
  let ?s2 = "?s1\<lparr>clock := 5000\<rparr>"
  let ?s3 = "fire ((ack ?s2 ''e1'' ''PUSH'')\<lparr>clock := 20000\<rparr>) 0"
  have id: "or_else (b_event_id ?b) ''u1'' = ''e1''" by simp
  have tm1: "armed (init_state 0) ?b ''u1'' = [\<lparr>t_due = 20000, t_callback =
      PushFallback ''e1'' (dispatch_ctx (init_state 0) ?b)\<rparr>]"
    by (simp add: armed_PUSH WHATSAPP_TIMEOUT_MS_def)
  have r1: "run ?s1 [Tick 5000] = Some ?s2" by simp
  have once: "\<forall>x \<in> set [Tick 5000]. \<not> creates x ''e1''" by simp
  have before: "clock ?s2 < clock (init_state 0) + WHATSAPP_TIMEOUT_MS"
    by (simp add: WHATSAPP_TIMEOUT_MS_def)
  have r2: "run (ack ?s2 ''e1'' ''PUSH'') [Tick 15000, Fire 0] = Some ?s3"
    by (simp add: TIMERS_send_notification tm1)
  have later: "\<forall>x \<in> set [Tick 15000, Fire 0]. \<not> creates x ''e1''" by simp
  have all: "run (init_state 0)
      [SendNotification ?b ''u1'', Tick 5000, Ack ''e1'' ''PUSH'', Tick 15000, Fire 0] = Some ?s3"
    using r2 by simp
  from ack_before_deadline [OF wf_init_state pending_init id r1 once before r2] later
  have "\<exists>r. lookup ?s3 ''e1'' = Some r \<and> ack_ts r \<noteq> None \<and> \<not> fallback_triggered r"
    by blast
  then show ?thesis by (simp only: observe_def all Option.bind.simps)
qed

subsection \<open>C2: the channel cascade\<close>

text \<open>
  C2.  On every state, \<open>/send-notification\<close> answers every request it selects a channel
  for with the channel that the priority cascade of the specification yields on the
  context \<open>ctx\<close> of the handler (truthiness of \<open>has_app\<close>, \<open>is_active\<close>, \<open>device_online\<close>,
  \<open>whatsapp_opt_in\<close>): IN_APP, else PUSH, else WHATSAPP, else SMS, the first matching rule
  winning, for every context; the stored record carries the same channel.  The one
  request it selects no channel for is the one on which \<open>pushUserEvent\<close> throws before
  the selection (a user id that \<open>USER_EVENTS\<close> finds up the prototype chain): that one is
  answered 500 and its record keeps the channel null.  The handler is a function, so the
  decision is deterministic.
\<close>

theorem channel_cascade:
  "map_sum id r_chosen_channel (snd (send_notification s body uuid)) =
     (if push_throws s (or_else (b_user_id body) ''demo_user'') then Inl InternalServerError
      else Inr (select_on (dispatch_ctx s body))) \<and>
   map_option chosen_channel
       (lookup (fst (send_notification s body uuid)) (or_else (b_event_id body) uuid)) =
     Some (if push_throws s (or_else (b_user_id body) ''demo_user'') then None
           else Some (select_on (dispatch_ctx s body)))"
  by (simp add: send_notification_def respond_def Let_def select_on_def spec_select_def lookup_def
      nth_HEAP_route nth_append new_record_def)

subsection \<open>C3: the fallback on expiry\<close>

text \<open>
  C3.  A dispatch that resolves to PUSH or WHATSAPP arms a timer due
  \<open>WHATSAPP_TIMEOUT_MS\<close> after the dispatch.  Whatever happens afterwards, when that timer
  is pending, the deadline has elapsed and the record of the event has no acknowledgment
  (\<open>ack_ts\<close> null), the timer can fire, and firing it leaves the record with
  \<open>fallback_triggered = true\<close> and \<open>fallback_channel\<close> WHATSAPP if the dispatch was on PUSH
  and \<open>whatsapp_opt_in\<close> of its context was truthy, SMS if it was on PUSH otherwise, and
  SMS always if the dispatch was on WHATSAPP.
\<close>

theorem fallback_on_expiry:
  assumes wfs: "wf_stores s"
    and disp: "send_notification s body uuid = (s1, Inr res)"
    and ch: "r_chosen_channel res = PUSH \<or> r_chosen_channel res = WHATSAPP"
    and run: "run s1 ops = Some u"
    and i: "i < length (TIMERS u)" "TIMERS u ! i = last (TIMERS s1)"
    and due: "clock s + WHATSAPP_TIMEOUT_MS \<le> clock u"
    and r: "lookup u (r_event_id res) = Some r" "ack_ts r = None"
  shows "\<exists>u' r'. step u (Fire i) = Some u' \<and> lookup u' (r_event_id res) = Some r' \<and>
           fallback_triggered r' \<and>
           fallback_channel r' =
             Some (if r_chosen_channel res = PUSH
                   then (if truthy (dispatch_ctx s body ''whatsapp_opt_in'') then WHATSAPP else SMS)
                   else SMS)"
proof -
  let ?e = "or_else (b_event_id body) uuid"
  let ?ctx = "dispatch_ctx s body"
  from disp have s1: "s1 = fst (send_notification s body uuid)"
    and res: "snd (send_notification s body uuid) = Inr res" by simp_all
  from send_notification_result [OF res]
  have e: "r_event_id res = ?e" and sel: "r_chosen_channel res = select_on ?ctx"
    and ok: "\<not> push_throws s (or_else (b_user_id body) ''demo_user'')" by simp_all
  have tm: "last (TIMERS s1) =
      \<lparr>t_due = clock s + WHATSAPP_TIMEOUT_MS,
       t_callback = (if r_chosen_channel res = PUSH then PushFallback ?e ?ctx
                     else WhatsappFallback ?e)\<rparr>"
    using ch ok by (auto simp add: s1 TIMERS_send_notification armed_def sel Let_def)
  have "wf_stores s1" using wfs by (simp add: s1 wf_send_notification)
  then have wfu: "wf_stores u" using run by (rule run_wf [rotated])
  from r(1) obtain a where a: "TELEMETRY u ?e = Some a" "r = HEAP u ! a"
    by (auto simp add: lookup_def e)
  from wfu a(1) have len: "a < length (HEAP u)" by (auto simp add: wf_stores_def)
  have ev: "callback_event (t_callback (TIMERS u ! i)) = ?e"
    by (simp add: i(2) tm)
  have fb: "spec_fallback (t_callback (TIMERS u ! i)) =
      (if r_chosen_channel res = PUSH
       then (if truthy (?ctx ''whatsapp_opt_in'') then WHATSAPP else SMS) else SMS)"
    by (simp add: i(2) tm)
  have st: "step u (Fire i) = Some (fire u i)"
    using i(1) due by (simp add: i(2) tm)
  have "HEAP (fire u i) ! a =
     (HEAP u ! a)\<lparr>fallback_triggered := True,
        fallback_channel := Some (spec_fallback (t_callback (TIMERS u ! i))),
        logs := logs (HEAP u ! a) @
          [(clock u, ''No ACK -> Fallback to ''
              @ channel_name (spec_fallback (t_callback (TIMERS u ! i))))]\<rparr>"
    using len a r(2) by (intro nth_HEAP_fire) (simp_all add: ev)
  then have "lookup (fire u i) ?e = Some (HEAP (fire u i) ! a) \<and>
      fallback_triggered (HEAP (fire u i) ! a) \<and>
      fallback_channel (HEAP (fire u i) ! a) = Some (spec_fallback (t_callback (TIMERS u ! i)))"
    using a(1) by (simp add: lookup_def)
  with st show ?thesis unfolding e fb [symmetric] by blast
qed

text \<open>
  On the initial stores: \<open>e1\<close> goes out on PUSH for \<open>demo_user\<close>, who has opted in to
  WhatsApp; 20000 ms later, with no acknowledgment, the timer fires and the fallback is
  WHATSAPP.
\<close>

theorem fallback_on_expiry_witness:
  "\<exists>u' r'. step ((fst (send_notification (init_state 0) (demo_push ''e1'') ''u1''))\<lparr>clock := 20000\<rparr>)
              (Fire 0) = Some u' \<and>
     lookup u' ''e1'' = Some r' \<and> fallback_triggered r' \<and> fallback_channel r' = Some WHATSAPP"
proof -
  let ?s1 = "fst (send_notification (init_state 0) (demo_push ''e1'') ''u1'')"
  let ?r = "\<lparr>event_id = ''e1'', user_id = ''demo_user'', event_type = ''LOGIN_OTP'',
             chosen_channel = Some PUSH, sent_ts = Some 0, ack_ts = None,
             fallback_triggered = False, fallback_channel = None,
             logs = [(0, ''Route: PUSH (Background notification)'')]\<rparr>"
  let ?res = "\<lparr>r_event_id = ''e1'', r_chosen_channel = PUSH, r_telemetry = Some ?r\<rparr>"
  let ?u = "?s1\<lparr>clock := 20000\<rparr>"
  have d: "send_notification (init_state 0) (demo_push ''e1'') ''u1'' = (?s1, Inr ?res)"
    by (rule prod_eqI) (simp_all add: demo_push_def handler_defs)
  have c: "r_chosen_channel ?res = PUSH \<or> r_chosen_channel ?res = WHATSAPP" by simp
  have r: "run ?s1 [Tick 20000] = Some ?u" by (simp add: init_state_def)
  have tm: "TIMERS ?s1 = [\<lparr>t_due = 20000, t_callback =
      PushFallback ''e1'' (dispatch_ctx (init_state 0) (demo_push ''e1''))\<rparr>]"
    by (simp add: TIMERS_send_notification armed_def select_on_def spec_select_def
        demo_push_def handler_defs)
  have i: "0 < length (TIMERS ?u)" "TIMERS ?u ! 0 = last (TIMERS ?s1)"
    by (simp_all add: tm)
  have due: "clock (init_state 0) + WHATSAPP_TIMEOUT_MS \<le> clock ?u"
    by (simp add: init_state_def WHATSAPP_TIMEOUT_MS_def)
  have l: "lookup ?u (r_event_id ?res) = Some ?r"
    by (simp add: demo_push_def handler_defs)
  have a: "ack_ts ?r = None" by simp
  from fallback_on_expiry [OF wf_init_state d c r i due l a] show ?thesis
    by simp
qed

subsection \<open>C4: acknowledging twice\<close>

text \<open>
  C4 as stated fails.  On the initial stores, event \<open>e1\<close> is dispatched, acknowledged at
  1000 ms and acknowledged again at 1500 ms: after the first call \<open>ack_ts\<close> is the time
  1000, after the second it is 1500.  The second acknowledgment took effect, and a non-null
  \<open>ack_ts\<close> changed.
\<close>

theorem second_ack_overwrites:
  "map_option ack_ts
     (observe [SendNotification (demo_push ''e1'') ''u1'', Tick 1000, Ack ''e1'' ''PUSH'',
               Tick 500] ''e1'') = Some (Some 1000) \<and>
   map_option ack_ts
     (observe [SendNotification (demo_push ''e1'') ''u1'', Tick 1000, Ack ''e1'' ''PUSH'',
               Tick 500, Ack ''e1'' ''PUSH''] ''e1'') = Some (Some 1500)"
  by (simp add: observe_def demo_push_def handler_defs)

text \<open>
  C4, amended.  \<open>/ack\<close> is last-write-wins: every call on a stored event sets \<open>ack_ts\<close>
  to the time of that call, so a second call \<open>d\<close> milliseconds later leaves the later
  time (the same final \<open>ack_ts\<close> as one call only when both calls read the same clock
  value).  Once the \<open>ack_ts\<close> of a record is non-null it stays non-null on that record
  under every later run of operations; its value is overwritten by a later acknowledgment.
\<close>

theorem ack_last_write_wins:
  assumes "wf_stores s" and "TELEMETRY s e = Some a" and "run (ack s e ch) ops = Some s'"
  shows "ack_ts (HEAP (ack s e ch) ! a) = Some (clock s) \<and>
         ack_ts (HEAP (ack ((ack s e ch)\<lparr>clock := clock s + d\<rparr>) e ch') ! a) = Some (clock s + d) \<and>
         ack_ts (HEAP s' ! a) \<noteq> None"
proof -
  from assms(1,2) have a: "a < length (HEAP s)" by (auto simp add: wf_stores_def)
  have first: "ack_ts (HEAP (ack s e ch) ! a) = Some (clock s)"
    using a assms(2) by (simp add: nth_HEAP_ack)
  have second: "ack_ts (HEAP (ack ((ack s e ch)\<lparr>clock := clock s + d\<rparr>) e ch') ! a) = Some (clock s + d)"
    using a assms(2) by (simp add: nth_HEAP_ack)
  have "kept a (ack s e ch) s'"
    using assms(3) a first by (intro run_kept) simp_all
  with first second show ?thesis by (simp add: kept_def)
qed

text \<open>
  The same on the initial stores: \<open>e1\<close> dispatched on PUSH and acknowledged at once,
  acknowledged again 500 ms later, and still acknowledged after its timer has fired.
\<close>

theorem ack_last_write_wins_witness:
  "ack_ts (HEAP (ack (fst (send_notification (init_state 0) (demo_push ''e1'') ''u1''))
                   ''e1'' ''PUSH'') ! 0) = Some 0 \<and>
   ack_ts (HEAP (ack ((ack (fst (send_notification (init_state 0) (demo_push ''e1'') ''u1''))
                         ''e1'' ''PUSH'')\<lparr>clock := 500\<rparr>) ''e1'' ''IN_APP'') ! 0) = Some 500 \<and>
   ack_ts (HEAP (fire ((ack (fst (send_notification (init_state 0) (demo_push ''e1'') ''u1''))
                          ''e1'' ''PUSH'')\<lparr>clock := 20000\<rparr>) 0) ! 0) \<noteq> None"
proof -
  let ?s = "fst (send_notification (init_state 0) (demo_push ''e1'') ''u1'')"
  have w: "wf_stores ?s" by (simp add: wf_send_notification wf_init_state)
  have t: "TELEMETRY ?s ''e1'' = Some 0"
    by (simp add: demo_push_def or_else_def init_state_def)
  have r: "run (ack ?s ''e1'' ''PUSH'') [Tick 20000, Fire 0] =
      Some (fire ((ack ?s ''e1'' ''PUSH'')\<lparr>clock := 20000\<rparr>) 0)"
    by (simp add: TIMERS_send_notification armed_def select_on_def spec_select_def
        demo_push_def handler_defs)
  from ack_last_write_wins [OF w t r, of 500 "''IN_APP''"] show ?thesis
    by (simp add: init_state_def)
qed

subsection \<open>C5: the trust decision of /login\<close>

text \<open>
  C5 as stated fails.  On the initial stores \<open>demo_user\<close> is bound to \<open>device_888\<close>, yet a
  login from \<open>device_999\<close> is TRUSTED.  And once the simulator has set \<open>device_status\<close> to
  \<open>NEW\<close>, binding \<open>device_999\<close> to \<open>demo_user\<close> does not make the next login from
  \<open>device_999\<close> trusted: it answers BINDING_REQUIRED on SMS_BINDING.
\<close>

theorem login_ignores_binding:
  "map_sum id status (snd (login (init_state 0) ''demo_user'' ''device_999'' ''u1''))
     = Inr TRUSTED \<and>
   USER_DB (complete_binding
              (update_context (init_state 0) (Some ''demo_user'')
                 (Some [''device_status'' \<mapsto> JStr ''NEW'']))
              ''demo_user'' ''device_999'' None) ''demo_user''
     = Some \<lparr>registered_device_id = ''device_999'', is_registered = True\<rparr> \<and>
   snd (login
          (complete_binding
             (update_context (init_state 0) (Some ''demo_user'')
                (Some [''device_status'' \<mapsto> JStr ''NEW'']))
             ''demo_user'' ''device_999'' None)
          ''demo_user'' ''device_999'' ''u2'')
     = Inr \<lparr>status = BINDING_REQUIRED, l_event_id = ''u2'', l_channel = SMS_BINDING,
            target_number = Some ''+919999999999'', message = ''Binding Required.''\<rparr>"
  by (simp add: handler_defs)

text \<open>
  C5, amended.  The trust decision of \<open>/login\<close> reads the \<open>device_status\<close> flag of the
  simulated context that the store yields for the user, and nothing else: on every state
  and for any device id, a login that is answered is answered TRUSTED on IN_APP when the
  flag is the string \<open>KNOWN\<close>, and BINDING_REQUIRED on SMS_BINDING otherwise.  (The login
  that is not answered is the one on which \<open>pushUserEvent\<close> throws: a user id that
  \<open>USER_EVENTS\<close> finds up the prototype chain, answered 500.)  \<open>/complete-binding\<close> replaces
  the user's bound-device identifier and leaves every simulated context as it is, so a
  login after it is decided on the same flag as before it.
\<close>

theorem login_by_device_status:
  "map_sum id status (snd (login s uid d uuid)) =
     (if push_throws s uid then Inl InternalServerError
      else Inr (if context_of s uid ''device_status'' = Some (JStr ''KNOWN'')
                then TRUSTED else BINDING_REQUIRED)) \<and>
   map_sum id l_channel (snd (login s uid d uuid)) =
     (if push_throws s uid then Inl InternalServerError
      else Inr (if context_of s uid ''device_status'' = Some (JStr ''KNOWN'')
                then IN_APP else SMS_BINDING)) \<and>
   context_of (complete_binding s uid' d' eid) uid = context_of s uid \<and>
   USER_DB (complete_binding s uid' d' eid) uid' =
     Some \<lparr>registered_device_id = d', is_registered = True\<rparr>"
  by (simp add: login_def Let_def) (simp add: complete_binding_def Let_def split: option.split)

subsection \<open>C6: the inbox\<close>

text \<open>
  C6, at the input where the code departs from it.  \<open>pushUserEvent\<close> appends the event id
  without looking for it (the guard that \<open>EVENT_ORDER\<close> has on the line before is missing
  here), so after \<open>e1\<close> has been dispatched twice for \<open>demo_user\<close> the inbox of
  \<open>demo_user\<close> lists \<open>e1\<close> twice.
\<close>

theorem inbox_repeats_event:
  "observe_inbox
     [SendNotification (demo_push ''e1'') ''u1'', SendNotification (demo_push ''e1'') ''u2'']
     ''demo_user'' = Some [''e1'', ''e1'']"
proof -
  have e: "or_else (b_event_id (demo_push ''e1'')) u = ''e1''" for u
    by (simp add: demo_push_def or_else_def)
  have u: "or_else (b_user_id (demo_push ''e1'')) ''demo_user'' = ''demo_user''"
    by (simp add: demo_push_def or_else_def)
  have l: "lookup (fst (send_notification s (demo_push ''e1'') u)) ''e1'' =
      Some ((new_record ''e1'' ''demo_user'' (or_else (b_event_type (demo_push ''e1'')) ''LOGIN_OTP''))
           \<lparr>chosen_channel := Some (select_on (dispatch_ctx s (demo_push ''e1''))),
            sent_ts := Some (clock s),
            logs := [(clock s, route_line (select_on (dispatch_ctx s (demo_push ''e1''))))]\<rparr>)"
    for s u
    using lookup_dispatched [of s "demo_push ''e1''" u]
    by (simp only: e u demo_user_pushes if_False)
  show ?thesis
    by (simp add: observe_inbox_def inbox_def List.map_filter_def u e l)
      (simp add: new_record_def init_state_def)
qed

subsection \<open>C7: how many timers an event can have\<close>

text \<open>
  C7 as stated fails.  On the initial stores, event \<open>e1\<close> is dispatched on PUSH and,
  10000 ms later, dispatched again under the same id: two timers are then pending against
  \<open>e1\<close>.
\<close>

theorem two_timers_pending:
  "observe_pending
     [SendNotification (demo_push ''e1'') ''u1'', Tick 10000,
      SendNotification (demo_push ''e1'') ''u2''] ''e1'' = Some 2"
proof -
  have "or_else (b_event_id (demo_push ''e1'')) u = ''e1''" for u
    by (simp add: demo_push_def or_else_def)
  then show ?thesis
    by (simp add: observe_pending_def pending_send_notification length_armed)
qed

text \<open>
  C7, amended.  One call of dispatch arms at most one timer: exactly one when it resolves
  to PUSH or WHATSAPP, none when it resolves to IN_APP or SMS (and none when it fails in
  \<open>pushUserEvent\<close> before resolving).  \<open>/login\<close> (both branches),
  \<open>/ack\<close>, \<open>/complete-binding\<close> and \<open>/update-context\<close> arm none.  Hence, in every run
  from the initial stores, the number of timers pending against an event id is at most
  the number of dispatches made under that id: at most one for an id dispatched once.
\<close>

theorem timers_armed:
  assumes "run (init_state t0) ops = Some s'"
  shows "TIMERS (fst (send_notification s body uuid)) = TIMERS s @ armed s body uuid \<and>
         length (armed s body uuid) =
           (if push_throws s (or_else (b_user_id body) ''demo_user'') then 0
            else if select_on (dispatch_ctx s body) \<in> {PUSH, WHATSAPP} then 1 else 0) \<and>
         TIMERS (fst (login s uid dev uuid')) = TIMERS s \<and>
         TIMERS (ack s e' c) = TIMERS s \<and>
         TIMERS (complete_binding s uid dev eid) = TIMERS s \<and>
         TIMERS (update_context s uo co) = TIMERS s \<and>
         pending s' e \<le> length (filter (\<lambda>x. dispatches x e) ops)"
  using pending_run [OF assms, of e]
  by (simp add: TIMERS_send_notification length_armed pending_def init_state_def)

text \<open>On the initial stores, one dispatch of \<open>e1\<close>: at most one timer is pending.\<close>

theorem timers_armed_witness:
  "pending (fst (send_notification (init_state 0) (demo_push ''e1'') ''u1'')) ''e1'' \<le> 1"
proof -
  have "run (init_state 0) [SendNotification (demo_push ''e1'') ''u1''] =
      Some (fst (send_notification (init_state 0) (demo_push ''e1'') ''u1''))"
    by simp
  from timers_armed [OF this, where e = "''e1''"] show ?thesis
    by (simp add: demo_push_def or_else_def)
qed

subsection \<open>C8: whose context decides\<close>

text \<open>
  C8 as stated fails.  The module starts with a stored context for \<open>demo_user\<close> in which
  \<open>is_active\<close> is false.  A caller who sends \<open>has_app\<close>, \<open>is_active\<close> and \<open>device_online\<close>
  all true gets PUSH, although the cascade on the values the caller sent is IN_APP.
\<close>

theorem caller_context_overridden:
  "map_sum id r_chosen_channel
     (snd (send_notification (init_state 0)
        \<lparr>b_event_id = Some ''e1'', b_user_id = Some ''demo_user'', b_event_type = None,
         b_user_context = Some [''has_app'' \<mapsto> JBool True, ''is_active'' \<mapsto> JBool True,
                                ''device_online'' \<mapsto> JBool True]\<rparr> ''u1'')) = Inr PUSH \<and>
   select_on [''has_app'' \<mapsto> JBool True, ''is_active'' \<mapsto> JBool True,
              ''device_online'' \<mapsto> JBool True] = IN_APP"
  by (simp add: handler_defs select_on_def spec_select_def)

text \<open>
  C8, amended.  The channel is decided on the caller-supplied context overlaid with the
  simulated context that the store yields for the user: on every key that context has,
  its value is used and the caller's value is ignored; the caller's value takes effect
  only on the keys it lacks (on all of them when the store yields nothing for the user).
  This holds on every state for every request that is answered with a channel; the one
  that is not is the one on which \<open>pushUserEvent\<close> throws, answered 500.
\<close>

theorem stored_context_overrides:
  "map_sum id r_chosen_channel (snd (send_notification s body uuid)) =
     (if push_throws s (or_else (b_user_id body) ''demo_user'') then Inl InternalServerError
      else Inr (select_on
                  (overlay (context_of s (or_else (b_user_id body) ''demo_user''))
                     (spread (b_user_context body)))))"
  by (simp add: send_notification_def respond_def Let_def select_on_def spec_select_def
      dispatch_ctx_overlay [symmetric])

subsection \<open>C9: a request without user id\<close>

text \<open>
  C9 as stated fails.  On the initial stores, a request with no field at all is
  processed: the answer is a dispatch result, and a record owned by \<open>demo_user\<close> is stored.
\<close>

theorem missing_user_id_processed:
  "snd (send_notification (init_state 0)
      \<lparr>b_event_id = None, b_user_id = None, b_event_type = None, b_user_context = None\<rparr> ''u1'')
   = Inr \<lparr>r_event_id = ''u1'', r_chosen_channel = PUSH,
          r_telemetry = Some
            \<lparr>event_id = ''u1'', user_id = ''demo_user'', event_type = ''LOGIN_OTP'',
             chosen_channel = Some PUSH, sent_ts = Some 0, ack_ts = None,
             fallback_triggered = False, fallback_channel = None,
             logs = [(0, ''Route: PUSH (Background notification)'')]\<rparr>\<rparr> \<and>
   map_option user_id
     (lookup (fst (send_notification (init_state 0)
        \<lparr>b_event_id = None, b_user_id = None, b_event_type = None, b_user_context = None\<rparr> ''u1''))
        ''u1'') = Some ''demo_user''"
  by (simp add: handler_defs)

text \<open>
  C9, amended.  A dispatch request without \<open>user_id\<close> is processed for the default user
  \<open>demo_user\<close>: on every state it answers with a dispatch result (never an error), and
  the record it stores and returns has \<open>user_id = demo_user\<close>.
\<close>

theorem missing_user_id_defaults:
  "map_sum id r_event_id (snd (send_notification s (body\<lparr>b_user_id := None\<rparr>) uuid))
     = Inr (or_else (b_event_id body) uuid) \<and>
   map_sum id (map_option user_id \<circ> r_telemetry)
       (snd (send_notification s (body\<lparr>b_user_id := None\<rparr>) uuid))
     = Inr (Some ''demo_user'') \<and>
   map_option user_id
     (lookup (fst (send_notification s (body\<lparr>b_user_id := None\<rparr>) uuid))
        (or_else (b_event_id body) uuid)) = Some ''demo_user''"
  by (simp add: send_notification_def respond_def Let_def lookup_def nth_HEAP_route nth_append
      new_record_def or_else_def)

subsection \<open>C10: dispatching an event id again\<close>

text \<open>
  C10.  When \<open>/send-notification\<close> is called with an event id \<open>e\<close> that is already stored,
  the key \<open>e\<close> is made to point to a new object, which is the freshly initialised record
  (empty \<open>logs\<close>, \<open>ack_ts\<close> null, \<open>fallback_triggered\<close> false, \<open>fallback_channel\<close> null)
  with the marks of this dispatch on it: its channel, its \<open>sent_ts\<close> and its one routing
  line (and without them when the request fails in \<open>pushUserEvent\<close>: the record is then
  the fresh literal as it is); nothing of the earlier record is carried over, and the
  earlier object is left as it was.  A timer that an earlier dispatch armed against \<open>e\<close>
  is still pending.  When its delay has elapsed it fires on the replacement record:
  with no acknowledgment of the replacement it sets \<open>fallback_triggered\<close> and writes the
  fallback channel of its own closure, and if the replacement has been acknowledged it
  leaves the record alone.
\<close>

theorem redispatch_replaces_record:
  assumes wfs: "wf_stores s" and old: "TELEMETRY s e = Some a0"
    and id: "or_else (b_event_id body) uuid = e"
  shows "lookup (fst (send_notification s body uuid)) e =
           Some (if push_throws s (or_else (b_user_id body) ''demo_user'')
                 then new_record e (or_else (b_user_id body) ''demo_user'')
                        (or_else (b_event_type body) ''LOGIN_OTP'')
                 else (new_record e (or_else (b_user_id body) ''demo_user'')
                         (or_else (b_event_type body) ''LOGIN_OTP''))
                      \<lparr>chosen_channel := Some (select_on (dispatch_ctx s body)),
                       sent_ts := Some (clock s),
                       logs := [(clock s, route_line (select_on (dispatch_ctx s body)))]\<rparr>) \<and>
         TELEMETRY (fst (send_notification s body uuid)) e \<noteq> Some a0 \<and>
         HEAP (fst (send_notification s body uuid)) ! a0 = HEAP s ! a0 \<and>
         (\<forall>i d c. i < length (TIMERS s) \<longrightarrow> callback_event (t_callback (TIMERS s ! i)) = e \<longrightarrow>
            t_due (TIMERS s ! i) \<le> clock s + d \<longrightarrow>
            TIMERS (fst (send_notification s body uuid)) ! i = TIMERS s ! i \<and>
            (\<exists>u' r'. step ((fst (send_notification s body uuid))\<lparr>clock := clock s + d\<rparr>) (Fire i)
                        = Some u' \<and>
               lookup u' e = Some r' \<and> ack_ts r' = None \<and> fallback_triggered r' \<and>
               fallback_channel r' = Some (spec_fallback (t_callback (TIMERS s ! i)))) \<and>
            lookup (fire ((ack (fst (send_notification s body uuid)) e c)
                            \<lparr>clock := clock s + d\<rparr>) i) e
              = lookup (ack (fst (send_notification s body uuid)) e c) e)"
proof -
  let ?s1 = "fst (send_notification s body uuid)"
  from wfs old have a0: "a0 < length (HEAP s)" by (auto simp add: wf_stores_def)
  have new: "lookup ?s1 e = Some (if push_throws s (or_else (b_user_id body) ''demo_user'')
                 then new_record e (or_else (b_user_id body) ''demo_user'')
                        (or_else (b_event_type body) ''LOGIN_OTP'')
                 else (new_record e (or_else (b_user_id body) ''demo_user'')
                         (or_else (b_event_type body) ''LOGIN_OTP''))
                      \<lparr>chosen_channel := Some (select_on (dispatch_ctx s body)),
                       sent_ts := Some (clock s),
                       logs := [(clock s, route_line (select_on (dispatch_ctx s body)))]\<rparr>)"
    using lookup_dispatched [of s body uuid] by (simp only: id)
  have other: "TELEMETRY ?s1 e \<noteq> Some a0" using a0 by (simp add: id)
  have same: "HEAP ?s1 ! a0 = HEAP s ! a0" using a0 by (rule nth_HEAP_send_notification)
  from new other same redispatch_with_timer [OF wfs old id] show ?thesis by blast
qed

text \<open>
  On the initial stores: \<open>e1\<close> is dispatched on PUSH and acknowledged, then dispatched
  again.  The record under \<open>e1\<close> is new (one log line, no acknowledgment), and the timer
  of the first dispatch, when it fires at 20000 ms, escalates it to WHATSAPP.
\<close>

theorem redispatch_replaces_record_witness:
  "lookup (ack (fst (send_notification (init_state 0) (demo_push ''e1'') ''u1'')) ''e1'' ''PUSH'')
     ''e1'' =
     Some \<lparr>event_id = ''e1'', user_id = ''demo_user'', event_type = ''LOGIN_OTP'',
           chosen_channel = Some PUSH, sent_ts = Some 0, ack_ts = Some 0,
           fallback_triggered = False, fallback_channel = None,
           logs = [(0, ''Route: PUSH (Background notification)''),
                   (0, ''ACK received via PUSH'')]\<rparr> \<and>
   lookup (fst (send_notification
                  (ack (fst (send_notification (init_state 0) (demo_push ''e1'') ''u1''))
                     ''e1'' ''PUSH'')
                  (demo_push ''e1'') ''u2'')) ''e1'' =
     Some \<lparr>event_id = ''e1'', user_id = ''demo_user'', event_type = ''LOGIN_OTP'',
           chosen_channel = Some PUSH, sent_ts = Some 0, ack_ts = None,
           fallback_triggered = False, fallback_channel = None,
           logs = [(0, ''Route: PUSH (Background notification)'')]\<rparr> \<and>
   (\<exists>u' r'. step ((fst (send_notification
                           (ack (fst (send_notification (init_state 0) (demo_push ''e1'') ''u1''))
                              ''e1'' ''PUSH'')
                           (demo_push ''e1'') ''u2''))\<lparr>clock := 20000\<rparr>) (Fire 0) = Some u' \<and>
      lookup u' ''e1'' = Some r' \<and> ack_ts r' = None \<and> fallback_triggered r' \<and>
      fallback_channel r' = Some WHATSAPP)"
proof -
  let ?b = "demo_push ''e1''"
  let ?d = "fst (send_notification (init_state 0) ?b ''u1'')"
  let ?s = "ack ?d ''e1'' ''PUSH''"
  have id: "or_else (b_event_id ?b) ''u2'' = ''e1''" by simp
  have w0: "wf_stores ?d" by (simp add: wf_send_notification wf_init_state)
  have w: "wf_stores ?s" using w0 by (simp add: wf_ack)
  have old: "TELEMETRY ?s ''e1'' = Some 0" by simp
  have tm1: "armed (init_state 0) ?b ''u1'' = [\<lparr>t_due = 20000, t_callback =
      PushFallback ''e1'' (dispatch_ctx (init_state 0) ?b)\<rparr>]"
    by (simp add: armed_PUSH WHATSAPP_TIMEOUT_MS_def)
  have i: "0 < length (TIMERS ?s)" by (simp add: TIMERS_send_notification tm1)
  have ev: "callback_event (t_callback (TIMERS ?s ! 0)) = ''e1''"
    by (simp add: TIMERS_send_notification tm1)
  have due: "t_due (TIMERS ?s ! 0) \<le> clock ?s + 20000"
    by (simp add: TIMERS_send_notification tm1)
  have fb: "spec_fallback (t_callback (TIMERS ?s ! 0)) = WHATSAPP"
    by (simp add: TIMERS_send_notification tm1)
  have l0: "lookup ?d ''e1'' =
     Some \<lparr>event_id = ''e1'', user_id = ''demo_user'', event_type = ''LOGIN_OTP'',
           chosen_channel = Some PUSH, sent_ts = Some 0, ack_ts = None,
           fallback_triggered = False, fallback_channel = None,
           logs = [(0, ''Route: PUSH (Background notification)'')]\<rparr>"
    using lookup_dispatched [of "init_state 0" ?b "''u1''"] by (simp add: new_record_def)
  have before: "lookup ?s ''e1'' =
     Some \<lparr>event_id = ''e1'', user_id = ''demo_user'', event_type = ''LOGIN_OTP'',
           chosen_channel = Some PUSH, sent_ts = Some 0, ack_ts = Some 0,
           fallback_triggered = False, fallback_channel = None,
           logs = [(0, ''Route: PUSH (Background notification)''),
                   (0, ''ACK received via PUSH'')]\<rparr>"
    using lookup_ack [OF w0 l0, of "''PUSH''"] by simp
  from redispatch_replaces_record [OF w old id] i ev due
  have "lookup (fst (send_notification ?s ?b ''u2'')) ''e1'' =
           Some (if push_throws ?s (or_else (b_user_id ?b) ''demo_user'')
                 then new_record ''e1'' (or_else (b_user_id ?b) ''demo_user'')
                        (or_else (b_event_type ?b) ''LOGIN_OTP'')
                 else (new_record ''e1'' (or_else (b_user_id ?b) ''demo_user'')
                         (or_else (b_event_type ?b) ''LOGIN_OTP''))
                      \<lparr>chosen_channel := Some (select_on (dispatch_ctx ?s ?b)),
                       sent_ts := Some (clock ?s),
                       logs := [(clock ?s, route_line (select_on (dispatch_ctx ?s ?b)))]\<rparr>)"
    and "\<exists>u' r'. step ((fst (send_notification ?s ?b ''u2''))\<lparr>clock := clock ?s + 20000\<rparr>) (Fire 0)
                     = Some u' \<and>
            lookup u' ''e1'' = Some r' \<and> ack_ts r' = None \<and> fallback_triggered r' \<and>
            fallback_channel r' = Some (spec_fallback (t_callback (TIMERS ?s ! 0)))"
    by blast+
  with before fb show ?thesis by (simp add: new_record_def)
qed

end
